theory Spec2Isabelle
  imports Main "HOL-Library.Sublist" "HOL-Library.Char_ord" "HOL-Library.List_Lexorder"
    "HOL-Library.Multiset"
begin

section \<open>Financial news ingestion: scraping pipeline and NewsAPI pagination\<close>

text \<open>
  A shallow embedding of the two scripts \<^verbatim>\<open>deepseek-rag-financial-news/scripts/fetch_news.py\<close>
  (class \<^verbatim>\<open>FinancialNewsScraper\<close>) and \<^verbatim>\<open>fin-news-deepseek-tuning/scripts/fetch_news.py\<close>
  (class \<^verbatim>\<open>NewsAPIFetcher\<close>). Python exceptions are values of the type \<open>exn\<close>; a
  function that may raise returns \<open>exn + 'a\<close> with \<open>Inl\<close> for the raised exception.
  Every constructor of \<open>exn\<close> stands for a subclass of Python's \<^verbatim>\<open>Exception\<close>, so a
  handler \<^verbatim>\<open>except Exception\<close> catches all of them, while
  \<^verbatim>\<open>except ValueError\<close> and \<^verbatim>\<open>except requests.exceptions.RequestException\<close> catch one
  constructor each.

  Strings are \<open>char list\<close>s read as ASCII text: \<open>lower\<close>, \<open>isdigit\<close> and \<open>isspace\<close> are
  Python's \<^verbatim>\<open>str.lower\<close>, \<^verbatim>\<open>str.isdigit\<close> and \<^verbatim>\<open>str.isspace\<close> on the ASCII range and leave
  every other character alone. Library code (\<^verbatim>\<open>datetime\<close>, \<^verbatim>\<open>_strptime\<close>, \<^verbatim>\<open>urllib.parse\<close>) is
  modelled after CPython 3.11 as far as the scripts use it; what the scripts only receive
  from outside (HTTP responses, the HTML parser, the CSS selector engine, the thread
  scheduler, the disk) is a parameter.
\<close>

subsection \<open>Exceptions\<close>

datatype exn =
    ValueError
  | OverflowError
  | KeyError
  | RequestException
  | OSError
  | Exception string

fun try_bind :: "exn + 'a \<Rightarrow> ('a \<Rightarrow> exn + 'b) \<Rightarrow> exn + 'b" where
  "try_bind (Inl e) f = Inl e"
| "try_bind (Inr x) f = f x"

subsection \<open>Strings\<close>

definition isdigit :: "char \<Rightarrow> bool" where
  "isdigit c = (CHR ''0'' \<le> c \<and> c \<le> CHR ''9'')"

text \<open>The ASCII characters for which \<^verbatim>\<open>str.isspace\<close> holds: tab to carriage return, the
  four separators \<^verbatim>\<open>\x1c\<close> to \<^verbatim>\<open>\x1f\<close>, and the space.\<close>

definition isspace :: "char \<Rightarrow> bool" where
  "isspace c = (c \<in> set [CHR 0x09, CHR 0x0A, CHR 0x0B, CHR 0x0C, CHR 0x0D,
                           CHR 0x1C, CHR 0x1D, CHR 0x1E, CHR 0x1F, CHR '' ''])"

definition lower_char :: "char \<Rightarrow> char" where
  "lower_char c =
     (if CHR ''A'' \<le> c \<and> c \<le> CHR ''Z'' then char_of (of_char c + (32::nat)) else c)"

definition lower :: "string \<Rightarrow> string" where
  "lower s = map lower_char s"

definition strip :: "string \<Rightarrow> string" where
  "strip s = rev (dropWhile isspace (rev (dropWhile isspace s)))"

text \<open>\<open>contains sub s\<close> is Python's \<^verbatim>\<open>sub in s\<close>; \<open>startswith s p\<close> is \<^verbatim>\<open>s.startswith(p)\<close>.\<close>

fun contains :: "string \<Rightarrow> string \<Rightarrow> bool" where
  "contains sub [] = (sub = [])"
| "contains sub (c # cs) = (prefix sub (c # cs) \<or> contains sub cs)"

definition startswith :: "string \<Rightarrow> string \<Rightarrow> bool" where
  "startswith s p = prefix p s"

definition digit_val :: "char \<Rightarrow> int" where
  "digit_val c = int (of_char c) - 48"

definition decimal_value :: "string \<Rightarrow> int" where
  "decimal_value s = foldl (\<lambda>a c. 10 * a + digit_val c) 0 s"

text \<open>\<^verbatim>\<open>int(s)\<close> for the strings the scripts pass: runs of digits. The empty string raises
  \<^verbatim>\<open>ValueError\<close>.\<close>

definition py_int :: "string \<Rightarrow> exn + int" where
  "py_int s = (if s = [] \<or> \<not> list_all isdigit s then Inl ValueError
               else Inr (decimal_value s))"

text \<open>The decimal digits of a non-negative integer, and \<open>zpad w n\<close>, the format
  \<^verbatim>\<open>%0wd\<close>.\<close>

function dec :: "int \<Rightarrow> string" where
  "dec n = (if n < 10 then [''0123456789'' ! nat n]
            else dec (n div 10) @ [''0123456789'' ! nat (n mod 10)])"
  by pat_completeness auto
termination
  by (relation "measure nat") auto

declare dec.simps [simp del]

definition zpad :: "nat \<Rightarrow> int \<Rightarrow> string" where
  "zpad w n =
     (if n < 0 then CHR ''-'' # replicate (w - 1 - length (dec (- n))) CHR ''0'' @ dec (- n)
      else replicate (w - length (dec n)) CHR ''0'' @ dec n)"

text \<open>\<open>split_on c s\<close> is \<^verbatim>\<open>s.split(c)\<close> and \<open>join sep xs\<close> is \<^verbatim>\<open>sep.join(xs)\<close>.\<close>

fun split_on :: "char \<Rightarrow> string \<Rightarrow> string list" where
  "split_on sep [] = [[]]"
| "split_on sep (c # cs) =
     (if c = sep then [] # split_on sep cs
      else (case split_on sep cs of [] \<Rightarrow> [[c]] | w # ws \<Rightarrow> (c # w) # ws))"

fun join :: "string \<Rightarrow> string list \<Rightarrow> string" where
  "join sep [] = []"
| "join sep [x] = x"
| "join sep (x # y # ys) = x @ sep @ join sep (y # ys)"

subsection \<open>\<^verbatim>\<open>datetime\<close>: the calendar, \<^verbatim>\<open>timedelta\<close>, subtraction, \<^verbatim>\<open>isoformat\<close>\<close>

text \<open>
  A naive \<^verbatim>\<open>datetime\<close> object holds its seven fields. The calendar functions follow
  CPython's \<^verbatim>\<open>datetime.py\<close> (\<^verbatim>\<open>_is_leap\<close>, \<^verbatim>\<open>_days_before_year\<close>, \<^verbatim>\<open>_days_in_month\<close>,
  \<^verbatim>\<open>_days_before_month\<close>, \<^verbatim>\<open>_ymd2ord\<close>, \<^verbatim>\<open>_ord2ymd\<close>); \<open>div\<close> and \<open>mod\<close> on \<open>int\<close> are
  Python's \<^verbatim>\<open>//\<close> and \<^verbatim>\<open>%\<close>.
\<close>

record datetime =
  year :: int
  month :: int
  day :: int
  hour :: int
  minute :: int
  second :: int
  microsecond :: int

definition is_leap :: "int \<Rightarrow> bool" where
  "is_leap y = (y mod 4 = 0 \<and> (y mod 100 \<noteq> 0 \<or> y mod 400 = 0))"

definition days_before_year :: "int \<Rightarrow> int" where
  "days_before_year y = (y - 1) * 365 + (y - 1) div 4 - (y - 1) div 100 + (y - 1) div 400"

definition DAYS_IN_MONTH :: "int list" where
  "DAYS_IN_MONTH = [-1, 31, 28, 31, 30, 31, 30, 31, 31, 30, 31, 30, 31]"

definition DAYS_BEFORE_MONTH :: "int list" where
  "DAYS_BEFORE_MONTH = [-1, 0, 31, 59, 90, 120, 151, 181, 212, 243, 273, 304, 334]"

definition days_in_month :: "int \<Rightarrow> int \<Rightarrow> int" where
  "days_in_month y m = (if m = 2 \<and> is_leap y then 29 else DAYS_IN_MONTH ! nat m)"

definition days_before_month :: "int \<Rightarrow> int \<Rightarrow> int" where
  "days_before_month y m = DAYS_BEFORE_MONTH ! nat m + (if m > 2 \<and> is_leap y then 1 else 0)"

definition ymd2ord :: "int \<Rightarrow> int \<Rightarrow> int \<Rightarrow> int" where
  "ymd2ord y m d = days_before_year y + days_before_month y m + d"

definition DI400Y :: int where "DI400Y = 146097"
definition DI100Y :: int where "DI100Y = 36524"
definition DI4Y :: int where "DI4Y = 1461"

definition ord2ymd :: "int \<Rightarrow> int \<times> int \<times> int" where
  "ord2ymd n0 =
     (let n = n0 - 1;
          n400 = n div DI400Y; n = n mod DI400Y;
          y = n400 * 400 + 1;
          n100 = n div DI100Y; n = n mod DI100Y;
          n4 = n div DI4Y; n = n mod DI4Y;
          n1 = n div 365; n = n mod 365;
          y = y + n100 * 100 + n4 * 4 + n1
      in if n1 = 4 \<or> n100 = 4 then (y - 1, 12, 31)
         else
           let leapyear = (n1 = 3 \<and> (n4 \<noteq> 24 \<or> n100 = 3));
               m = (n + 50) div 32;
               preceding = DAYS_BEFORE_MONTH ! nat m + (if m > 2 \<and> leapyear then 1 else 0)
           in if preceding > n
              then (y, m - 1, n - (preceding - (DAYS_IN_MONTH ! nat (m - 1)
                                      + (if m - 1 = 2 \<and> leapyear then 1 else 0))) + 1)
              else (y, m, n - preceding + 1))"

definition MINYEAR :: int where "MINYEAR = 1"
definition MAXYEAR :: int where "MAXYEAR = 9999"
definition MAXORDINAL :: int where "MAXORDINAL = 3652059"

text \<open>\<^verbatim>\<open>_check_date_fields\<close> and \<^verbatim>\<open>_check_time_fields\<close>: what the constructors accept.\<close>

definition check_date_fields :: "int \<Rightarrow> int \<Rightarrow> int \<Rightarrow> bool" where
  "check_date_fields y m d =
     (MINYEAR \<le> y \<and> y \<le> MAXYEAR \<and> 1 \<le> m \<and> m \<le> 12 \<and> 1 \<le> d \<and> d \<le> days_in_month y m)"

definition check_time_fields :: "int \<Rightarrow> int \<Rightarrow> int \<Rightarrow> int \<Rightarrow> bool" where
  "check_time_fields h mi s us =
     (0 \<le> h \<and> h \<le> 23 \<and> 0 \<le> mi \<and> mi \<le> 59 \<and> 0 \<le> s \<and> s \<le> 59 \<and> 0 \<le> us \<and> us \<le> 999999)"

definition date_new :: "int \<Rightarrow> int \<Rightarrow> int \<Rightarrow> exn + unit" where
  "date_new y m d = (if check_date_fields y m d then Inr () else Inl ValueError)"

definition datetime_new ::
  "int \<Rightarrow> int \<Rightarrow> int \<Rightarrow> int \<Rightarrow> int \<Rightarrow> int \<Rightarrow> int \<Rightarrow> exn + datetime" where
  "datetime_new y m d h mi s us =
     (if check_date_fields y m d \<and> check_time_fields h mi s us
      then Inr \<lparr>year = y, month = m, day = d, hour = h, minute = mi, second = s, microsecond = us\<rparr>
      else Inl ValueError)"

text \<open>\<^verbatim>\<open>parsed_date.replace(year=y)\<close> builds a new object through the constructor.\<close>

definition replace_year :: "datetime \<Rightarrow> int \<Rightarrow> exn + datetime" where
  "replace_year t y = datetime_new y (month t) (day t) (hour t) (minute t) (second t) (microsecond t)"

definition US_PER_SECOND :: int where "US_PER_SECOND = 1000000"
definition US_PER_DAY :: int where "US_PER_DAY = 86400 * 1000000"

text \<open>
  A \<^verbatim>\<open>timedelta\<close> is its length in microseconds; the constructor raises
  \<^verbatim>\<open>OverflowError\<close> when the normalised day count exceeds 999999999 in magnitude.
  \<open>datetime_sub t delta\<close> is \<^verbatim>\<open>t - delta\<close>: the sum is formed on the ordinal day and the
  time of day, and a day outside \<^verbatim>\<open>1..MAXORDINAL\<close> raises \<^verbatim>\<open>OverflowError\<close>
  (``date value out of range'').
\<close>

definition timedelta :: "int \<Rightarrow> exn + int" where
  "timedelta us = (if \<bar>us div US_PER_DAY\<bar> > 999999999 then Inl OverflowError else Inr us)"

definition to_microseconds :: "datetime \<Rightarrow> int" where
  "to_microseconds t =
     ymd2ord (year t) (month t) (day t) * US_PER_DAY
     + ((hour t * 3600 + minute t * 60 + second t) * US_PER_SECOND + microsecond t)"

definition datetime_sub :: "datetime \<Rightarrow> int \<Rightarrow> exn + datetime" where
  "datetime_sub t delta =
     (let total = to_microseconds t - delta;
          days = total div US_PER_DAY;
          rem_us = total mod US_PER_DAY;
          secs = rem_us div US_PER_SECOND
      in if 0 < days \<and> days \<le> MAXORDINAL
         then (case ord2ymd days of (y, m, d) \<Rightarrow>
                 Inr \<lparr>year = y, month = m, day = d,
                      hour = secs div 3600, minute = (secs mod 3600) div 60, second = secs mod 60,
                      microsecond = rem_us mod US_PER_SECOND\<rparr>)
         else Inl OverflowError)"

text \<open>\<open>datetime_minus t us\<close> is the expression \<^verbatim>\<open>t - timedelta(microseconds=us)\<close>.\<close>

definition datetime_minus :: "datetime \<Rightarrow> int \<Rightarrow> exn + datetime" where
  "datetime_minus t us = try_bind (timedelta us) (datetime_sub t)"

definition isoformat :: "datetime \<Rightarrow> string" where
  "isoformat t =
     zpad 4 (year t) @ ''-'' @ zpad 2 (month t) @ ''-'' @ zpad 2 (day t) @ ''T'' @
     zpad 2 (hour t) @ '':'' @ zpad 2 (minute t) @ '':'' @ zpad 2 (second t) @
     (if microsecond t \<noteq> 0 then ''.'' @ zpad 6 (microsecond t) else [])"

subsection \<open>\<^verbatim>\<open>datetime.strptime\<close> for the directives the scraper uses\<close>

text \<open>
  CPython's \<^verbatim>\<open>_strptime\<close> turns the format into a regular expression (\<^verbatim>\<open>TimeRE.pattern\<close>):
  a run of whitespace becomes \<^verbatim>\<open>\s+\<close>, a directive becomes a named group, any other
  character stands for itself; the expression is compiled with \<^verbatim>\<open>IGNORECASE\<close>. The groups
  of the five directives in use are
  \<^verbatim>\<open>%d: 3[0-1]|[1-2]\d|0[1-9]|[1-9]| [1-9]\<close>, \<^verbatim>\<open>%m: 1[0-2]|0[1-9]|[1-9]\<close>, \<^verbatim>\<open>%Y: \d\d\d\d\<close>,
  and for \<^verbatim>\<open>%b\<close> and \<^verbatim>\<open>%B\<close> the month names of the C locale, longest first.
  \<open>match_items\<close> lists every way the expression matches a prefix of the text, in the
  order a backtracking matcher tries them, so its head is what \<^verbatim>\<open>re.match\<close> returns.
\<close>

datatype fmt_item = Lit char | Spaces | Directive char

function pattern :: "string \<Rightarrow> fmt_item list" where
  "pattern [] = []"
| "pattern (c # cs) =
     (if c = CHR ''%''
        then (case cs of [] \<Rightarrow> [Directive CHR ''%''] | d # rest \<Rightarrow> Directive d # pattern rest)
      else if isspace c then Spaces # pattern (dropWhile isspace cs)
      else Lit c # pattern cs)"
  by pat_completeness auto
termination
  by (relation "measure length") (auto simp: length_dropWhile_le less_Suc_eq_le)

type_synonym char_class = "char \<Rightarrow> bool"

definition one_of :: "string \<Rightarrow> char_class" where
  "one_of cs c = (c \<in> set cs)"

definition ignorecase :: "char \<Rightarrow> char_class" where
  "ignorecase a c = (lower_char c = lower_char a)"

definition a_month :: "string list" where
  "a_month = [[], ''jan'', ''feb'', ''mar'', ''apr'', ''may'', ''jun'',
              ''jul'', ''aug'', ''sep'', ''oct'', ''nov'', ''dec'']"

definition f_month :: "string list" where
  "f_month = [[], ''january'', ''february'', ''march'', ''april'', ''may'', ''june'',
              ''july'', ''august'', ''september'', ''october'', ''november'', ''december'']"

text \<open>\<^verbatim>\<open>__seqToRE\<close>: \<^verbatim>\<open>sorted(to_convert, key=len, reverse=True)\<close>, a stable descending sort.\<close>

definition seqToRE :: "string list \<Rightarrow> char_class list list" where
  "seqToRE to_convert = map (map ignorecase) (rev (sort_key length (rev to_convert)))"

definition directive_regex :: "char \<Rightarrow> char_class list list option" where
  "directive_regex d =
     (if d = CHR ''d'' then Some [[one_of ''3'', one_of ''01''], [one_of ''12'', isdigit],
                                  [one_of ''0'', one_of ''123456789''], [one_of ''123456789''],
                                  [one_of '' '', one_of ''123456789'']]
      else if d = CHR ''m'' then Some [[one_of ''1'', one_of ''012''],
                                       [one_of ''0'', one_of ''123456789''],
                                       [one_of ''123456789'']]
      else if d = CHR ''Y'' then Some [[isdigit, isdigit, isdigit, isdigit]]
      else if d = CHR ''B'' then Some (seqToRE (tl f_month))
      else if d = CHR ''b'' then Some (seqToRE (tl a_month))
      else None)"

fun match_seq :: "char_class list \<Rightarrow> string \<Rightarrow> (string \<times> string) option" where
  "match_seq [] s = Some ([], s)"
| "match_seq (p # ps) [] = None"
| "match_seq (p # ps) (c # cs) =
     (if p c then (case match_seq ps cs of None \<Rightarrow> None | Some (m, r) \<Rightarrow> Some (c # m, r))
      else None)"

type_synonym groups = "(char \<times> string) list"

fun match_items :: "fmt_item list \<Rightarrow> groups \<Rightarrow> string \<Rightarrow> (groups \<times> string) list" where
  "match_items [] g s = [(g, s)]"
| "match_items (Lit a # items) g s =
     (case s of [] \<Rightarrow> [] | c # cs \<Rightarrow> if ignorecase a c then match_items items g cs else [])"
| "match_items (Spaces # items) g s =
     concat (map (\<lambda>k. match_items items g (drop k s))
                 (rev [1..<Suc (length (takeWhile isspace s))]))"
| "match_items (Directive d # items) g s =
     (case directive_regex d of
        None \<Rightarrow> []
      | Some alts \<Rightarrow>
          concat (map (\<lambda>alt. case match_seq alt s of
                                None \<Rightarrow> []
                              | Some (m, r) \<Rightarrow> match_items items (g @ [(d, m)]) r) alts))"

text \<open>A directive outside the table is the \<^verbatim>\<open>KeyError\<close> that \<^verbatim>\<open>_strptime\<close> turns into
  \<^verbatim>\<open>ValueError\<close> (``bad directive'').\<close>

definition known_directives :: "fmt_item list \<Rightarrow> bool" where
  "known_directives items =
     list_all (\<lambda>i. case i of Directive d \<Rightarrow> directive_regex d \<noteq> None | _ \<Rightarrow> True) items"

definition index_of :: "string \<Rightarrow> string list \<Rightarrow> int" where
  "index_of x xs = int (length (takeWhile (\<lambda>y. y \<noteq> x) xs))"

text \<open>The loop over \<^verbatim>\<open>found_dict\<close>: year (if any), month and day from the groups.\<close>

fun read_group ::
  "(int option \<times> int \<times> int) \<Rightarrow> (char \<times> string) \<Rightarrow> exn + (int option \<times> int \<times> int)" where
  "read_group (y, m, d) (key, v) =
     (if key = CHR ''Y'' then try_bind (py_int v) (\<lambda>n. Inr (Some n, m, d))
      else if key = CHR ''m'' then try_bind (py_int v) (\<lambda>n. Inr (y, n, d))
      else if key = CHR ''B'' then Inr (y, index_of (lower v) f_month, d)
      else if key = CHR ''b'' then Inr (y, index_of (lower v) a_month, d)
      else if key = CHR ''d'' then try_bind (py_int (strip v)) (\<lambda>n. Inr (y, m, n))
      else Inr (y, m, d))"

fun read_groups ::
  "(int option \<times> int \<times> int) \<Rightarrow> groups \<Rightarrow> exn + (int option \<times> int \<times> int)" where
  "read_groups acc [] = Inr acc"
| "read_groups acc (kv # rest) = try_bind (read_group acc kv) (\<lambda>acc'. read_groups acc' rest)"

text \<open>
  No match, or text left over after the match, is \<^verbatim>\<open>ValueError\<close>. Without a year the
  default is 1900 (1904 for the day-of-year computation of 29 February, then 1900 again);
  the date is checked twice, by \<^verbatim>\<open>datetime_date(year, month, day)\<close> and by the final
  constructor call.
\<close>

definition strptime :: "string \<Rightarrow> string \<Rightarrow> exn + datetime" where
  "strptime data_string format =
     (if \<not> known_directives (pattern format) then Inl ValueError
      else case match_items (pattern format) [] data_string of
        [] \<Rightarrow> Inl ValueError
      | (found, rest) # _ \<Rightarrow>
          if rest \<noteq> [] then Inl ValueError
          else try_bind (read_groups (None, 1, 1) found) (\<lambda>(yopt, m, d).
            let leap_year_fix = (yopt = None \<and> m = 2 \<and> d = 29);
                y = (case yopt of Some y \<Rightarrow> y | None \<Rightarrow> if leap_year_fix then 1904 else 1900)
            in try_bind (date_new y m d) (\<lambda>_.
                 datetime_new (if leap_year_fix then 1900 else y) m d 0 0 0 0)))"

subsection \<open>\<^verbatim>\<open>FinancialNewsScraper._parse_date\<close>\<close>

text \<open>
  \<open>now\<close> is what \<^verbatim>\<open>datetime.now()\<close> returns during the call. \<open>parse_date_try\<close> is the body
  of the outer \<^verbatim>\<open>try\<close>; \<open>parse_date\<close> adds the handler \<^verbatim>\<open>except Exception\<close>, which returns
  \<^verbatim>\<open>datetime.now().isoformat()\<close>. In the loop over the formats only \<^verbatim>\<open>ValueError\<close> is
  caught (\<^verbatim>\<open>continue\<close>). The five relative branches differ only in the unit, which
  \<open>relative_unit\<close> returns in microseconds; each computes
  \<^verbatim>\<open>int(''.join(filter(str.isdigit, date_text)))\<close>.
\<close>

definition date_formats :: "string list" where
  "date_formats =
     [''%Y-%m-%d'', ''%b %d, %Y'', ''%d %b %Y'', ''%B %d, %Y'', ''%d %B %Y'',
      ''%m/%d/%Y'', ''%d/%m/%Y'', ''%Y/%m/%d'', ''%m-%d-%Y'', ''%d-%m-%Y'',
      ''%b %d'', ''%d %b'', ''%B %d'', ''%d %B'']"

fun try_formats :: "datetime \<Rightarrow> string \<Rightarrow> string list \<Rightarrow> exn + string" where
  "try_formats now date_text [] = Inr (isoformat now)"
| "try_formats now date_text (fmt # fmts) =
     (case try_bind (strptime (strip date_text) fmt) (\<lambda>parsed_date.
             try_bind (if year parsed_date = 1900 then replace_year parsed_date (year now)
                       else Inr parsed_date) (\<lambda>parsed_date.
             Inr (isoformat parsed_date))) of
        Inl ValueError \<Rightarrow> try_formats now date_text fmts
      | Inl e \<Rightarrow> Inl e
      | Inr r \<Rightarrow> Inr r)"

definition ago :: "datetime \<Rightarrow> string \<Rightarrow> int \<Rightarrow> exn + string" where
  "ago now date_text unit_us =
     try_bind (py_int (filter isdigit date_text)) (\<lambda>n.
     try_bind (datetime_minus now (n * unit_us)) (\<lambda>date. Inr (isoformat date)))"

definition relative_unit :: "string \<Rightarrow> int option" where
  "relative_unit date_text =
     (if contains ''minute'' date_text \<or> contains ''min'' date_text then Some (60 * US_PER_SECOND)
      else if contains ''hour'' date_text \<or> contains ''hr'' date_text then Some (3600 * US_PER_SECOND)
      else if contains ''day'' date_text then Some US_PER_DAY
      else if contains ''week'' date_text then Some (7 * US_PER_DAY)
      else if contains ''month'' date_text then Some (30 * US_PER_DAY)
      else None)"

definition parse_date_try :: "datetime \<Rightarrow> string \<Rightarrow> exn + string" where
  "parse_date_try now date_text0 =
     (let date_text = strip (lower date_text0) in
      if contains ''ago'' date_text then
        (case relative_unit date_text of
           Some unit_us \<Rightarrow> ago now date_text unit_us
         | None \<Rightarrow> Inr (isoformat now))
      else if contains ''today'' date_text then Inr (isoformat now)
      else if contains ''yesterday'' date_text
        then try_bind (datetime_minus now US_PER_DAY) (\<lambda>date. Inr (isoformat date))
      else try_formats now date_text date_formats)"

definition parse_date :: "datetime \<Rightarrow> string \<Rightarrow> string" where
  "parse_date now date_text =
     (case parse_date_try now date_text of Inl e \<Rightarrow> isoformat now | Inr r \<Rightarrow> r)"

text \<open>
  Vocabulary of the date claims. The supported relative units with their length in
  microseconds (a month is 30 days); \<open>parses t f\<close>: format \<open>f\<close> parses the whole of \<open>t\<close>;
  a reference time for the examples.
\<close>

definition relative_units :: "(string \<times> int) list" where
  "relative_units =
     [(''minute'', 60 * US_PER_SECOND), (''minutes'', 60 * US_PER_SECOND),
      (''min'', 60 * US_PER_SECOND), (''mins'', 60 * US_PER_SECOND),
      (''hour'', 3600 * US_PER_SECOND), (''hours'', 3600 * US_PER_SECOND),
      (''hr'', 3600 * US_PER_SECOND), (''hrs'', 3600 * US_PER_SECOND),
      (''day'', US_PER_DAY), (''days'', US_PER_DAY),
      (''week'', 7 * US_PER_DAY), (''weeks'', 7 * US_PER_DAY),
      (''month'', 30 * US_PER_DAY), (''months'', 30 * US_PER_DAY)]"

definition parses :: "string \<Rightarrow> string \<Rightarrow> bool" where
  "parses t f = (case strptime t f of Inl e \<Rightarrow> False | Inr d \<Rightarrow> True)"

definition now0 :: datetime where
  "now0 = \<lparr>year = 2024, month = 3, day = 10, hour = 12, minute = 0, second = 30, microsecond = 250\<rparr>"

subsection \<open>\<^verbatim>\<open>urllib.parse.urljoin\<close>\<close>

text \<open>
  After CPython 3.11's \<^verbatim>\<open>urllib/parse.py\<close>: \<^verbatim>\<open>urlsplit\<close>, \<^verbatim>\<open>urlparse\<close>, \<^verbatim>\<open>_splitparams\<close>,
  \<^verbatim>\<open>urlunsplit\<close>, \<^verbatim>\<open>urlunparse\<close> and \<^verbatim>\<open>urljoin\<close>, for ASCII text. \<^verbatim>\<open>urlsplit\<close> raises
  \<^verbatim>\<open>ValueError\<close> on a network location with unbalanced brackets, and on a bracketed host
  that \<^verbatim>\<open>_check_bracketed_host\<close> rejects; which hosts that function accepts is the
  parameter \<open>chk\<close>.
\<close>

definition uses_relative :: "string list" where
  "uses_relative = [[], ''ftp'', ''http'', ''gopher'', ''nntp'', ''imap'',
                    ''wais'', ''file'', ''https'', ''shttp'', ''mms'',
                    ''prospero'', ''rtsp'', ''rtsps'', ''rtspu'', ''sftp'',
                    ''svn'', ''svn+ssh'', ''ws'', ''wss'']"

definition uses_netloc :: "string list" where
  "uses_netloc = [[], ''ftp'', ''http'', ''gopher'', ''nntp'', ''telnet'',
                  ''imap'', ''wais'', ''file'', ''mms'', ''https'', ''shttp'',
                  ''snews'', ''prospero'', ''rtsp'', ''rtsps'', ''rtspu'', ''rsync'',
                  ''svn'', ''svn+ssh'', ''sftp'', ''nfs'', ''git'', ''git+ssh'',
                  ''ws'', ''wss'']"

definition uses_params :: "string list" where
  "uses_params = [[], ''ftp'', ''hdl'', ''prospero'', ''http'', ''imap'',
                  ''https'', ''shttp'', ''rtsp'', ''rtsps'', ''rtspu'', ''sip'',
                  ''sips'', ''mms'', ''sftp'', ''tel'']"

definition isalpha :: "char \<Rightarrow> bool" where
  "isalpha c = ((CHR ''a'' \<le> c \<and> c \<le> CHR ''z'') \<or> (CHR ''A'' \<le> c \<and> c \<le> CHR ''Z''))"

definition scheme_chars :: "char \<Rightarrow> bool" where
  "scheme_chars c = (isalpha c \<or> isdigit c \<or> c \<in> set ''+-.'')"

definition C0_CONTROL_OR_SPACE :: "char \<Rightarrow> bool" where
  "C0_CONTROL_OR_SPACE c = (of_char c \<le> (32::nat))"

definition UNSAFE_URL_BYTES_TO_REMOVE :: "char list" where
  "UNSAFE_URL_BYTES_TO_REMOVE = [CHR 0x09, CHR 0x0D, CHR 0x0A]"

definition remove_unsafe :: "string \<Rightarrow> string" where
  "remove_unsafe s = filter (\<lambda>c. c \<notin> set UNSAFE_URL_BYTES_TO_REMOVE) s"

text \<open>\<open>before c s\<close> and \<open>after c s\<close> are the two parts of \<^verbatim>\<open>s.split(c, 1)\<close> when \<open>c\<close>
  occurs in \<open>s\<close>.\<close>

definition before :: "char \<Rightarrow> string \<Rightarrow> string" where
  "before c s = takeWhile (\<lambda>x. x \<noteq> c) s"

definition after :: "char \<Rightarrow> string \<Rightarrow> string" where
  "after c s = drop 1 (dropWhile (\<lambda>x. x \<noteq> c) s)"

definition splitnetloc :: "string \<Rightarrow> string \<times> string" where
  "splitnetloc url =
     (takeWhile (\<lambda>c. c \<notin> set ''/?#'') (drop 2 url), dropWhile (\<lambda>c. c \<notin> set ''/?#'') (drop 2 url))"

text \<open>The first half of \<^verbatim>\<open>urlsplit\<close>: cleaning, and the scheme the text carries, if any
  (\<open>scheme0\<close> is the default).\<close>

definition split_scheme :: "string \<Rightarrow> string \<Rightarrow> string \<times> string" where
  "split_scheme url0 scheme0 =
     (let url = remove_unsafe (dropWhile C0_CONTROL_OR_SPACE url0);
          scheme = remove_unsafe
                     (rev (dropWhile C0_CONTROL_OR_SPACE (rev (dropWhile C0_CONTROL_OR_SPACE scheme0))))
      in if CHR '':'' \<in> set url \<and> before CHR '':'' url \<noteq> [] \<and> isalpha (hd url)
            \<and> list_all scheme_chars (before CHR '':'' url)
         then (lower (before CHR '':'' url), after CHR '':'' url)
         else (scheme, url))"

definition urlsplit ::
  "(string \<Rightarrow> bool) \<Rightarrow> string \<Rightarrow> string \<Rightarrow> exn + (string \<times> string \<times> string \<times> string \<times> string)" where
  "urlsplit chk url0 scheme0 =
     (case split_scheme url0 scheme0 of (scheme, url) \<Rightarrow>
      try_bind
           (if take 2 url = ''//''
            then (case splitnetloc url of (netloc, rest) \<Rightarrow>
                    if (CHR ''['' \<in> set netloc \<and> CHR '']'' \<notin> set netloc)
                        \<or> (CHR '']'' \<in> set netloc \<and> CHR ''['' \<notin> set netloc)
                      then Inl ValueError
                    else if CHR ''['' \<in> set netloc \<and> CHR '']'' \<in> set netloc
                            \<and> \<not> chk (before CHR '']'' (after CHR ''['' netloc))
                      then Inl ValueError
                    else Inr (netloc, rest))
            else Inr ([], url))
           (\<lambda>(netloc, url).
              let (url, fragment) =
                    (if CHR ''#'' \<in> set url then (before CHR ''#'' url, after CHR ''#'' url)
                     else (url, []));
                  (url, query) =
                    (if CHR ''?'' \<in> set url then (before CHR ''?'' url, after CHR ''?'' url)
                     else (url, []))
              in Inr (scheme, netloc, url, query, fragment)))"

definition splitparams :: "string \<Rightarrow> string \<times> string" where
  "splitparams url =
     (if CHR ''/'' \<in> set url
      then (let k = length url - 1 - length (takeWhile (\<lambda>c. c \<noteq> CHR ''/'') (rev url))
            in if CHR '';'' \<notin> set (drop k url) then (url, [])
               else (take k url @ before CHR '';'' (drop k url), after CHR '';'' (drop k url)))
      else if CHR '';'' \<in> set url then (before CHR '';'' url, after CHR '';'' url)
      else (butlast url, url))"

definition urlparse ::
  "(string \<Rightarrow> bool) \<Rightarrow> string \<Rightarrow> string
     \<Rightarrow> exn + (string \<times> string \<times> string \<times> string \<times> string \<times> string)" where
  "urlparse chk url scheme0 =
     try_bind (urlsplit chk url scheme0) (\<lambda>(scheme, netloc, url, query, fragment).
       if scheme \<in> set uses_params \<and> CHR '';'' \<in> set url
       then (case splitparams url of (url, params) \<Rightarrow>
               Inr (scheme, netloc, url, params, query, fragment))
       else Inr (scheme, netloc, url, [], query, fragment))"

definition urlunsplit :: "string \<times> string \<times> string \<times> string \<times> string \<Rightarrow> string" where
  "urlunsplit c =
     (case c of (scheme, netloc, url, query, fragment) \<Rightarrow>
        let url = (if netloc \<noteq> [] \<or> (scheme \<noteq> [] \<and> scheme \<in> set uses_netloc) \<or> take 2 url = ''//''
                   then ''//'' @ netloc @ (if url \<noteq> [] \<and> take 1 url \<noteq> ''/'' then ''/'' @ url else url)
                   else url);
            url = (if scheme \<noteq> [] then scheme @ '':'' @ url else url);
            url = (if query \<noteq> [] then url @ ''?'' @ query else url)
        in if fragment \<noteq> [] then url @ ''#'' @ fragment else url)"

definition urlunparse ::
  "string \<times> string \<times> string \<times> string \<times> string \<times> string \<Rightarrow> string" where
  "urlunparse c =
     (case c of (scheme, netloc, url, params, query, fragment) \<Rightarrow>
        urlunsplit (scheme, netloc, (if params \<noteq> [] then url @ '';'' @ params else url),
                    query, fragment))"

text \<open>The loop over the path segments: \<^verbatim>\<open>..\<close> pops (an empty stack stays empty),
  \<^verbatim>\<open>.\<close> is skipped.\<close>

fun resolve_segments :: "string list \<Rightarrow> string list \<Rightarrow> string list" where
  "resolve_segments [] resolved_path = resolved_path"
| "resolve_segments (seg # segs) resolved_path =
     resolve_segments segs
       (if seg = ''..'' then butlast resolved_path
        else if seg = ''.'' then resolved_path
        else resolved_path @ [seg])"

text \<open>\<^verbatim>\<open>segments[1:-1] = filter(None, segments[1:-1])\<close>.\<close>

definition drop_empty_inner :: "string list \<Rightarrow> string list" where
  "drop_empty_inner segments =
     (if length segments \<le> 2 then segments
      else hd segments # filter (\<lambda>s. s \<noteq> []) (butlast (tl segments)) @ [last segments])"

definition urljoin :: "(string \<Rightarrow> bool) \<Rightarrow> string \<Rightarrow> string \<Rightarrow> exn + string" where
  "urljoin chk base url =
     (if base = [] then Inr url
      else if url = [] then Inr base
      else
        try_bind (urlparse chk base []) (\<lambda>(bscheme, bnetloc, bpath, bparams, bquery, bfragment).
        try_bind (urlparse chk url bscheme) (\<lambda>(scheme, netloc, path, params, query, fragment).
          if scheme \<noteq> bscheme \<or> scheme \<notin> set uses_relative then Inr url
          else if scheme \<in> set uses_netloc \<and> netloc \<noteq> []
            then Inr (urlunparse (scheme, netloc, path, params, query, fragment))
          else
            let netloc = (if scheme \<in> set uses_netloc then bnetloc else netloc) in
            if path = [] \<and> params = []
            then Inr (urlunparse (scheme, netloc, bpath, bparams,
                                  (if query = [] then bquery else query), fragment))
            else
              let base_parts = split_on CHR ''/'' bpath;
                  base_parts = (if last base_parts \<noteq> [] then butlast base_parts else base_parts);
                  segments = (if take 1 path = ''/'' then split_on CHR ''/'' path
                              else drop_empty_inner (base_parts @ split_on CHR ''/'' path));
                  resolved_path = resolve_segments segments [];
                  resolved_path = (if last segments \<in> set [''.'', ''..'']
                                   then resolved_path @ [[]] else resolved_path)
              in Inr (urlunparse (scheme, netloc,
                        (if join ''/'' resolved_path = [] then ''/'' else join ''/'' resolved_path),
                        params, query, fragment)))))"

subsection \<open>Parsed documents (BeautifulSoup)\<close>

text \<open>
  A parsed document is a tree of text nodes and elements (tag name, attributes,
  children); the \<^verbatim>\<open>BeautifulSoup\<close> object is the root element. \<open>get_text sep\<close> is
  \<^verbatim>\<open>get_text(separator=sep)\<close>, which joins the strings below a node in document order;
  \<open>find_all name\<close> is \<^verbatim>\<open>find_all(name)\<close>; \<open>decompose_all names\<close> is the loop that calls
  \<^verbatim>\<open>decompose()\<close> on every element \<^verbatim>\<open>soup(names)\<close> finds, which removes these elements
  with everything below them.
\<close>

datatype node = Text string | Element string "(string \<times> string) list" "node list"

fun attrs :: "node \<Rightarrow> (string \<times> string) list" where
  "attrs (Text s) = []"
| "attrs (Element t a cs) = a"

definition has_attr :: "node \<Rightarrow> string \<Rightarrow> bool" where
  "has_attr n k = (map_of (attrs n) k \<noteq> None)"

definition get_attr :: "node \<Rightarrow> string \<Rightarrow> exn + string" where
  "get_attr n k = (case map_of (attrs n) k of None \<Rightarrow> Inl KeyError | Some v \<Rightarrow> Inr v)"

fun strings :: "node \<Rightarrow> string list" where
  "strings (Text s) = [s]"
| "strings (Element t a cs) = concat (map strings cs)"

definition get_text :: "string \<Rightarrow> node \<Rightarrow> string" where
  "get_text sep n = join sep (strings n)"

fun descendants :: "node \<Rightarrow> node list" where
  "descendants (Text s) = []"
| "descendants (Element t a cs) = concat (map (\<lambda>c. c # descendants c) cs)"

fun is_tag :: "string list \<Rightarrow> node \<Rightarrow> bool" where
  "is_tag names (Text s) = False"
| "is_tag names (Element t a cs) = (t \<in> set names)"

definition find_all :: "string \<Rightarrow> node \<Rightarrow> node list" where
  "find_all name n = filter (is_tag [name]) (descendants n)"

fun decompose_all :: "string list \<Rightarrow> node \<Rightarrow> node" where
  "decompose_all names (Text s) = Text s"
| "decompose_all names (Element t a cs) =
     Element t a (map (decompose_all names) (filter (\<lambda>c. \<not> is_tag names c) cs))"

subsection \<open>The world outside the scraper\<close>

text \<open>
  \<^item> \<open>clock\<close>: what \<^verbatim>\<open>datetime.now()\<close> returns (one reference time for the run);
  \<^item> \<open>user_agent\<close>: the outcome of \<^verbatim>\<open>_get_random_user_agent\<close>;
  \<^item> \<open>http_get url k\<close>: the outcome of attempt \<open>k\<close> (sleep, \<^verbatim>\<open>scraper.get\<close>,
    \<^verbatim>\<open>raise_for_status\<close>, \<^verbatim>\<open>response.text\<close>) for \<open>url\<close>: the body, a
    \<^verbatim>\<open>RequestException\<close>, or any other exception;
  \<^item> \<open>html_parser\<close>: \<^verbatim>\<open>BeautifulSoup(html, 'html.parser')\<close>;
  \<^item> \<open>css_select sel n\<close>: \<^verbatim>\<open>n.select(sel)\<close>, the elements below \<open>n\<close> that match the
    selector, in document order, or the exception the selector engine raises;
  \<^item> \<open>check_bracketed_host\<close>: which bracketed hosts \<^verbatim>\<open>urlsplit\<close> accepts.
\<close>

record env =
  clock :: datetime
  user_agent :: "exn + string"
  http_get :: "string \<Rightarrow> nat \<Rightarrow> exn + string"
  html_parser :: "string \<Rightarrow> node"
  css_select :: "string \<Rightarrow> node \<Rightarrow> exn + node list"
  check_bracketed_host :: "string \<Rightarrow> bool"

text \<open>\<^verbatim>\<open>select_one\<close> is the first element \<^verbatim>\<open>select\<close> finds, or \<^verbatim>\<open>None\<close>.\<close>

definition select_one :: "env \<Rightarrow> string \<Rightarrow> node \<Rightarrow> exn + node option" where
  "select_one E sel n =
     try_bind (css_select E sel n) (\<lambda>found. Inr (case found of [] \<Rightarrow> None | x # _ \<Rightarrow> Some x))"

subsection \<open>\<^verbatim>\<open>FinancialNewsScraper\<close>: sources, requests, extraction\<close>

text \<open>
  An article is the dictionary \<^verbatim>\<open>_scrape_source\<close> builds (\<open>source_id\<close> and \<open>source_name\<close>
  are the keys \<^verbatim>\<open>id\<close> and \<^verbatim>\<open>name\<close> of its \<^verbatim>\<open>source\<close> entry); a source configuration is an
  entry of \<^verbatim>\<open>SOURCES\<close> (\<open>cfg_name\<close> and \<open>cfg_url\<close> are its keys \<^verbatim>\<open>name\<close> and \<^verbatim>\<open>url\<close>).
  A selector that may be \<^verbatim>\<open>None\<close> is an \<open>option\<close>.
\<close>

record article =
  source_id :: string
  source_name :: string
  title :: string
  description :: string
  url :: string
  publishedAt :: string
  content :: "string option"

record source_config =
  cfg_name :: string
  cfg_url :: string
  article_selector :: string
  title_selector :: string
  link_selector :: string
  summary_selector :: "string option"
  date_selector :: "string option"

definition backslash :: char where "backslash = CHR 0x5C"

definition SOURCES :: "(string \<times> source_config) list" where
  "SOURCES =
    [(''yahoo_finance'',
      \<lparr>cfg_name = ''Yahoo Finance'', cfg_url = ''https://finance.yahoo.com/news/'',
       article_selector = ''div.Ov'' @ [backslash] @ ''(h'' @ [backslash] @ '').Pend'' @ [backslash]
          @ ''(44px'' @ [backslash] @ '').Pstart'' @ [backslash] @ ''(25px'' @ [backslash] @ '')'',
       title_selector = ''h3'', link_selector = ''a'', summary_selector = Some ''p'',
       date_selector = Some (''span.C'' @ [backslash] @ ''(#959595'' @ [backslash] @ '')'')\<rparr>),
     (''cnbc'',
      \<lparr>cfg_name = ''CNBC'', cfg_url = ''https://www.cnbc.com/world/?region=world'',
       article_selector = ''.Card-standardBreakerCard, .Card-card'',
       title_selector = ''.Card-title'', link_selector = ''a'',
       summary_selector = Some ''.Card-description'', date_selector = Some ''time''\<rparr>),
     (''seeking_alpha'',
      \<lparr>cfg_name = ''Seeking Alpha'', cfg_url = ''https://seekingalpha.com/market-news'',
       article_selector = ''div.media-preview-content'',
       title_selector = ''a.media-link'', link_selector = ''a.media-link'',
       summary_selector = Some ''p.media-preview-summary'', date_selector = Some ''span.media-date''\<rparr>),
     (''finviz'',
      \<lparr>cfg_name = ''Finviz'', cfg_url = ''https://finviz.com/news.ashx'',
       article_selector = ''tr.nn'',
       title_selector = ''a.nn-tab-link'', link_selector = ''a.nn-tab-link'',
       summary_selector = None, date_selector = Some ''td.nn-date''\<rparr>),
     (''market_watch_latest'',
      \<lparr>cfg_name = ''MarketWatch Latest'',
       cfg_url = ''https://www.marketwatch.com/latest-news?mod=top_nav'',
       article_selector = ''div.article__content'',
       title_selector = ''h3.article__headline'', link_selector = ''a'',
       summary_selector = Some ''p.article__summary'', date_selector = Some ''.article__timestamp''\<rparr>),
     (''bloomberg'',
      \<lparr>cfg_name = ''Bloomberg'', cfg_url = ''https://www.bloomberg.com/markets'',
       article_selector = ''article.story-list-story'',
       title_selector = ''h3.story-list-story__headline'',
       link_selector = ''a.story-list-story__info__headline-link'',
       summary_selector = Some ''p.story-list-story__summary'',
       date_selector = Some ''time.story-list-story__time''\<rparr>),
     (''investing_analysis'',
      \<lparr>cfg_name = ''Investing.com Analysis'',
       cfg_url = ''https://www.investing.com/analysis/most-popular-analysis'',
       article_selector = ''article.articleItem'',
       title_selector = ''.title'', link_selector = ''a.title'',
       summary_selector = Some ''p'', date_selector = Some ''.date''\<rparr>),
     (''zacks'',
      \<lparr>cfg_name = ''Zacks'', cfg_url = ''https://www.zacks.com/stock-market-today'',
       article_selector = ''.commentary_module_row'',
       title_selector = ''a'', link_selector = ''a'',
       summary_selector = Some ''p'', date_selector = Some ''.date_time''\<rparr>)]"

text \<open>
  \<^verbatim>\<open>_make_request\<close>: three attempts; a \<^verbatim>\<open>RequestException\<close> is retried and, on the last
  attempt, turned into \<^verbatim>\<open>None\<close>; any other exception propagates. The headers are built
  before the loop. Sleeping does not change the value.
\<close>

definition max_retries :: nat where "max_retries = 3"

fun request_attempts :: "env \<Rightarrow> string \<Rightarrow> nat list \<Rightarrow> exn + string option" where
  "request_attempts E u [] = Inr None"
| "request_attempts E u (attempt # rest) =
     (case http_get E u attempt of
        Inr text \<Rightarrow> Inr (Some text)
      | Inl RequestException \<Rightarrow>
          if attempt < max_retries - 1 then request_attempts E u rest else Inr None
      | Inl e \<Rightarrow> Inl e)"

definition make_request :: "env \<Rightarrow> string \<Rightarrow> exn + string option" where
  "make_request E u = try_bind (user_agent E) (\<lambda>_. request_attempts E u [0..<max_retries])"

text \<open>Python truthiness of an optional string: \<^verbatim>\<open>None\<close> and \<^verbatim>\<open>''\<close> are false.\<close>

definition truthy :: "string option \<Rightarrow> bool" where
  "truthy s = (case s of None \<Rightarrow> False | Some v \<Rightarrow> v \<noteq> [])"

text \<open>
  The body of the \<^verbatim>\<open>try\<close> block inside the loop of \<^verbatim>\<open>_scrape_source\<close> for one candidate
  node: \<open>Inr None\<close> is \<^verbatim>\<open>continue\<close>, \<open>Inr (Some a)\<close> is the dictionary appended, \<open>Inl e\<close> an
  exception, which the handler of the loop logs before going on with the next node.
\<close>

text \<open>The step ``make sure link is absolute'' of \<^verbatim>\<open>_scrape_source\<close>.\<close>

definition absolute_link :: "env \<Rightarrow> source_config \<Rightarrow> string \<Rightarrow> exn + string" where
  "absolute_link E cfg link =
     (if \<not> (startswith link ''http://'' \<or> startswith link ''https://'')
      then urljoin (check_bracketed_host E) (cfg_url cfg) link
      else Inr link)"

definition scrape_article :: "env \<Rightarrow> string \<Rightarrow> source_config \<Rightarrow> node \<Rightarrow> exn + article option" where
  "scrape_article E sid cfg art =
     try_bind (select_one E (title_selector cfg) art) (\<lambda>title_element.
     case title_element of
       None \<Rightarrow> Inr None
     | Some title_el \<Rightarrow>
         let title_text = strip (get_text [] title_el) in
         try_bind (select_one E (link_selector cfg) art) (\<lambda>link_element.
         case link_element of
           None \<Rightarrow> Inr None
         | Some link_el \<Rightarrow>
             if \<not> has_attr link_el ''href'' then Inr None
             else
               try_bind (get_attr link_el ''href'') (\<lambda>link.
               try_bind (absolute_link E cfg link) (\<lambda>link.
               try_bind (if truthy (summary_selector cfg)
                         then try_bind (select_one E (the (summary_selector cfg)) art)
                                (\<lambda>summary_element. Inr (case summary_element of
                                    None \<Rightarrow> []
                                  | Some el \<Rightarrow> strip (get_text [] el)))
                         else Inr []) (\<lambda>summary.
               try_bind (if truthy (date_selector cfg)
                         then try_bind (select_one E (the (date_selector cfg)) art)
                                (\<lambda>date_element. Inr (case date_element of
                                    None \<Rightarrow> isoformat (clock E)
                                  | Some el \<Rightarrow> parse_date (clock E) (strip (get_text [] el))))
                         else Inr (isoformat (clock E))) (\<lambda>published_at.
               Inr (Some \<lparr>source_id = sid, source_name = cfg_name cfg, title = title_text,
                          description = summary, url = link, publishedAt = published_at,
                          content = None\<rparr>)))))))"

fun scrape_loop :: "env \<Rightarrow> string \<Rightarrow> source_config \<Rightarrow> node list \<Rightarrow> article list \<Rightarrow> article list" where
  "scrape_loop E sid cfg [] arts = arts"
| "scrape_loop E sid cfg (art # rest) arts =
     scrape_loop E sid cfg rest
       (case scrape_article E sid cfg art of
          Inr (Some a) \<Rightarrow> arts @ [a]
        | Inr None \<Rightarrow> arts
        | Inl e \<Rightarrow> arts)"

text \<open>\<open>extract_articles\<close> is \<^verbatim>\<open>_scrape_source\<close> from the parsed page on; \<open>scrape_source\<close> is all of it.\<close>

definition extract_articles :: "env \<Rightarrow> string \<Rightarrow> source_config \<Rightarrow> string \<Rightarrow> exn + article list" where
  "extract_articles E sid cfg html =
     try_bind (css_select E (article_selector cfg) (html_parser E html)) (\<lambda>article_elements.
     Inr (scrape_loop E sid cfg article_elements []))"

definition scrape_source :: "env \<Rightarrow> string \<Rightarrow> source_config \<Rightarrow> exn + article list" where
  "scrape_source E sid cfg =
     try_bind (make_request E (cfg_url cfg)) (\<lambda>html.
     if \<not> truthy html then Inr [] else extract_articles E sid cfg (the html))"

subsection \<open>\<^verbatim>\<open>FinancialNewsScraper.fetch_article_content\<close>\<close>

definition newline :: char where "newline = CHR 0x0A"

definition dquote :: char where "dquote = CHR 0x22"

definition body_selectors :: "string list" where
  "body_selectors =
     [''article'', ''.article-body'', ''.article-content'', ''.story-body'',
      ''.story-content'', ''.post-content'', ''.entry-content'', ''main'',
      ''#article-body'', ''#content-body'', ''.content-article'', ''.article__body'',
      ''[itemprop='' @ [dquote] @ ''articleBody'' @ [dquote] @ '']'', ''.news-content'',
      ''.article-text'']"

text \<open>The loop over the selectors: the first one with a match wins.\<close>

fun first_match :: "env \<Rightarrow> node \<Rightarrow> string list \<Rightarrow> exn + node option" where
  "first_match E soup [] = Inr None"
| "first_match E soup (selector # rest) =
     try_bind (select_one E selector soup) (\<lambda>article_body.
       case article_body of Some b \<Rightarrow> Inr (Some b) | None \<Rightarrow> first_match E soup rest)"

text \<open>\<^verbatim>\<open>'\n'.join(line.strip() for line in content.split('\n') if line.strip())\<close>.\<close>

definition clean_lines :: "string \<Rightarrow> string" where
  "clean_lines c = join [newline] (filter (\<lambda>l. l \<noteq> []) (map strip (split_on newline c)))"

text \<open>The parsed page after the loop that removes \<^verbatim>\<open>script\<close>, \<^verbatim>\<open>style\<close>, \<^verbatim>\<open>nav\<close>,
  \<^verbatim>\<open>header\<close>, \<^verbatim>\<open>footer\<close> and \<^verbatim>\<open>aside\<close> elements.\<close>

definition content_soup :: "env \<Rightarrow> string \<Rightarrow> node" where
  "content_soup E html =
     decompose_all [''script'', ''style'', ''nav'', ''header'', ''footer'', ''aside'']
       (html_parser E html)"

definition body_text :: "node \<Rightarrow> string" where
  "body_text b = clean_lines (strip (get_text [newline] b))"

definition paragraph_text :: "node list \<Rightarrow> string" where
  "paragraph_text paragraphs =
     join [newline] (filter (\<lambda>t. t \<noteq> []) (map (\<lambda>p. strip (get_text [] p)) paragraphs))"

text \<open>
  \<open>fetch_content_try\<close> is the body of the \<^verbatim>\<open>try\<close> block; on any exception the handler
  logs and the function returns the dictionary as it is. No exception can occur after
  the assignment to \<^verbatim>\<open>article['content']\<close>, so that is the dictionary passed in.
\<close>

definition fetch_content_try :: "env \<Rightarrow> article \<Rightarrow> exn + article" where
  "fetch_content_try E a =
     try_bind (make_request E (url a)) (\<lambda>html.
     if \<not> truthy html then Inr a
     else
       try_bind (first_match E (content_soup E (the html)) body_selectors) (\<lambda>article_body.
       case article_body of
         Some b \<Rightarrow> Inr (a\<lparr>content := Some (body_text b)\<rparr>)
       | None \<Rightarrow>
           if find_all ''p'' (content_soup E (the html)) \<noteq> []
           then Inr (a\<lparr>content := Some (paragraph_text (find_all ''p'' (content_soup E (the html))))\<rparr>)
           else Inr a))"

definition fetch_article_content :: "env \<Rightarrow> article \<Rightarrow> article" where
  "fetch_article_content E a =
     (if url a = [] then a
      else case fetch_content_try E a of Inl e \<Rightarrow> a | Inr a' \<Rightarrow> a')"

subsection \<open>The JSON sink \<^verbatim>\<open>_save_articles\<close> (both scripts)\<close>

text \<open>
  \<^verbatim>\<open>_save_articles\<close>: the output file is overwritten with the JSON dump of the list; an
  I/O error is logged and re-raised. \<open>disk\<close> says whether writing a given list fails; the
  state is the content of \<^verbatim>\<open>data/raw_news.json\<close> (\<open>None\<close>: not written so far).
\<close>

definition save_articles ::
  "('a list \<Rightarrow> exn option) \<Rightarrow> 'a list \<Rightarrow> 'a list option \<Rightarrow> exn + 'a list option" where
  "save_articles disk arts file =
     (case disk arts of Some e \<Rightarrow> Inl e | None \<Rightarrow> Inr (Some arts))"

subsection \<open>\<^verbatim>\<open>FinancialNewsScraper.fetch_news\<close>\<close>

text \<open>
  \<^verbatim>\<open>all_articles.sort(key=lambda x: x.get('publishedAt', ''), reverse=True)\<close>: strings
  compare lexicographically by code point, the sort is stable, and \<^verbatim>\<open>reverse=True\<close> keeps
  equal keys in their original order (the list is reversed before and after an ascending
  stable sort).
\<close>

definition sort_newest_first :: "article list \<Rightarrow> article list" where
  "sort_newest_first arts = rev (sort_key publishedAt (rev arts))"

definition resolve_sources :: "string list option \<Rightarrow> string list" where
  "resolve_sources sources =
     (case sources of
        None \<Rightarrow> map fst SOURCES
      | Some ss \<Rightarrow> filter (\<lambda>s. s \<in> set (map fst SOURCES)) ss)"

text \<open>The dictionary comprehension that submits one job per source;
  \<^verbatim>\<open>self.SOURCES[source_id]\<close> raises \<^verbatim>\<open>KeyError\<close> for an unknown id.\<close>

fun submit_all :: "string list \<Rightarrow> exn + (string \<times> source_config) list" where
  "submit_all [] = Inr []"
| "submit_all (sid # rest) =
     (case map_of SOURCES sid of
        None \<Rightarrow> Inl KeyError
      | Some cfg \<Rightarrow> try_bind (submit_all rest) (\<lambda>jobs. Inr ((sid, cfg) # jobs)))"

text \<open>The loop over the completed futures: the articles of a source are appended, an
  exception of a source is logged and adds nothing.\<close>

fun collect :: "env \<Rightarrow> (string \<times> source_config) list \<Rightarrow> article list \<Rightarrow> article list" where
  "collect E [] all_articles = all_articles"
| "collect E ((sid, cfg) # rest) all_articles =
     collect E rest
       (case scrape_source E sid cfg of
          Inr arts \<Rightarrow> all_articles @ arts
        | Inl e \<Rightarrow> all_articles)"

text \<open>
  \<open>as_completed\<close> is the order in which the thread pool finishes the submitted jobs, a
  rearrangement of them. \<open>gathered\<close> is the list before sorting. The executor is created
  with \<^verbatim>\<open>max_workers=min(3, len(sources))\<close> and raises \<^verbatim>\<open>ValueError\<close> for a value below 1.
  The result holds the returned list and the content of the output file after the run.
\<close>

definition gathered ::
  "env \<Rightarrow> ((string \<times> source_config) list \<Rightarrow> (string \<times> source_config) list)
     \<Rightarrow> (string \<times> source_config) list \<Rightarrow> bool \<Rightarrow> article list" where
  "gathered E as_completed jobs fetch_content =
     (let all_articles = collect E (as_completed jobs) [] in
      if fetch_content \<and> all_articles \<noteq> [] then map (fetch_article_content E) all_articles
      else all_articles)"

definition fetch_news ::
  "env \<Rightarrow> ((string \<times> source_config) list \<Rightarrow> (string \<times> source_config) list)
     \<Rightarrow> (article list \<Rightarrow> exn option) \<Rightarrow> article list option
     \<Rightarrow> string list option \<Rightarrow> bool \<Rightarrow> bool
     \<Rightarrow> exn + (article list \<times> article list option)" where
  "fetch_news E as_completed disk file sources fetch_content save =
     (let sources = resolve_sources sources in
      if min 3 (length sources) < 1 then Inl ValueError
      else
        try_bind (submit_all sources) (\<lambda>jobs.
        let all_articles = sort_newest_first (gathered E as_completed jobs fetch_content) in
        if save \<and> all_articles \<noteq> []
        then try_bind (save_articles disk all_articles file) (\<lambda>file'. Inr (all_articles, file'))
        else Inr (all_articles, file)))"

subsection \<open>NewsAPI path: the pagination loop of \<^verbatim>\<open>fetch_financial_news\<close>\<close>

text \<open>
  The decoded JSON body of one page. A key that may be missing is an \<open>option\<close>:
  \<^verbatim>\<open>data['status']\<close> raises \<^verbatim>\<open>KeyError\<close> when the key is absent, while
  \<^verbatim>\<open>data.get(k, default)\<close> yields the default.
\<close>

record 'a api_data =
  status :: "string option"
  message :: "string option"
  articles :: "'a list option"
  totalResults :: "int option"

definition dict_get :: "'v option \<Rightarrow> 'v \<Rightarrow> 'v" where
  "dict_get field dflt = (case field of None \<Rightarrow> dflt | Some v \<Rightarrow> v)"

text \<open>
  \<open>api page\<close> is the outcome of \<^verbatim>\<open>session.get\<close>, \<^verbatim>\<open>raise_for_status\<close> and
  \<^verbatim>\<open>response.json()\<close> for the request whose \<^verbatim>\<open>page\<close> parameter is \<open>page\<close> (all other
  query parameters are fixed during one run). The function is the \<^verbatim>\<open>while True\<close> loop of
  lines 74 to 101; both \<^verbatim>\<open>except\<close> clauses re-raise, so an exception is the result.
  The one-second sleep between pages has no effect on the value.
\<close>

function fetch_pages :: "(nat \<Rightarrow> exn + 'a api_data) \<Rightarrow> nat \<Rightarrow> 'a list \<Rightarrow> exn + 'a list" where
  "fetch_pages api page all_articles =
     (case api page of
        Inl e \<Rightarrow> Inl e
      | Inr data \<Rightarrow>
          (case status data of
             None \<Rightarrow> Inl KeyError
           | Some st \<Rightarrow>
               if st \<noteq> ''ok''
                 then Inl (Exception (''API Error: '' @ dict_get (message data) ''Unknown error''))
               else if dict_get (articles data) [] = [] then Inr all_articles
               else if dict_get (totalResults data) 0
                         \<le> int (length (all_articles @ dict_get (articles data) []))
                 then Inr (all_articles @ dict_get (articles data) [])
               else if 100 \<le> length (all_articles @ dict_get (articles data) [])
                 then Inr (all_articles @ dict_get (articles data) [])
               else fetch_pages api (page + 1) (all_articles @ dict_get (articles data) [])))"
  by pat_completeness auto
termination
  by (relation "measure (\<lambda>(api, page, all_articles). 100 - length all_articles)")
     (auto simp: neq_Nil_conv)

declare fetch_pages.simps [simp del]

definition fetch_financial_news ::
  "(nat \<Rightarrow> exn + 'a api_data) \<Rightarrow> bool \<Rightarrow> ('a list \<Rightarrow> exn option) \<Rightarrow> 'a list option
     \<Rightarrow> exn + ('a list \<times> 'a list option)" where
  "fetch_financial_news api save disk file =
     (case fetch_pages api 1 [] of
        Inl e \<Rightarrow> Inl e
      | Inr all_articles \<Rightarrow>
          if save
          then (case save_articles disk all_articles file of
                  Inl e \<Rightarrow> Inl e
                | Inr file' \<Rightarrow> Inr (all_articles, file'))
          else Inr (all_articles, file))"

text \<open>Vocabulary for the pagination claim: what page \<open>k\<close> answers, and the running total.\<close>

definition page_ok :: "(nat \<Rightarrow> exn + 'a api_data) \<Rightarrow> nat \<Rightarrow> bool" where
  "page_ok api k = (case api k of Inl e \<Rightarrow> False | Inr data \<Rightarrow> status data = Some ''ok'')"

definition page_articles :: "(nat \<Rightarrow> exn + 'a api_data) \<Rightarrow> nat \<Rightarrow> 'a list" where
  "page_articles api k = (case api k of Inl e \<Rightarrow> [] | Inr data \<Rightarrow> dict_get (articles data) [])"

definition page_total :: "(nat \<Rightarrow> exn + 'a api_data) \<Rightarrow> nat \<Rightarrow> int" where
  "page_total api k = (case api k of Inl e \<Rightarrow> 0 | Inr data \<Rightarrow> dict_get (totalResults data) 0)"

definition pages_upto :: "(nat \<Rightarrow> exn + 'a api_data) \<Rightarrow> nat \<Rightarrow> nat \<Rightarrow> 'a list" where
  "pages_upto api p k = concat (map (page_articles api) [p..<Suc k])"

text \<open>
  The three stop conditions after page \<open>k\<close>, for a loop that started at page \<open>p\<close> with
  \<open>acc\<close> already collected: the page is empty, the running total has reached the
  \<^verbatim>\<open>totalResults\<close> the page reports, or it has reached the cap of 100.
\<close>

definition stops_at :: "(nat \<Rightarrow> exn + 'a api_data) \<Rightarrow> 'a list \<Rightarrow> nat \<Rightarrow> nat \<Rightarrow> bool" where
  "stops_at api acc p k =
     (page_articles api k = []
      \<or> page_total api k \<le> int (length (acc @ pages_upto api p k))
      \<or> 100 \<le> length (acc @ pages_upto api p k))"

text \<open>A mocked API: every page holds 100 articles and reports \<^verbatim>\<open>totalResults = 250\<close>.\<close>

definition api250 :: "nat \<Rightarrow> exn + nat api_data" where
  "api250 k = Inr \<lparr>status = Some ''ok'', message = None,
                  articles = Some (replicate 100 k), totalResults = Some 250\<rparr>"

subsection \<open>A mocked world for the examples\<close>

text \<open>
  A selector engine for the examples: it understands the selectors \<^verbatim>\<open>tag\<close>, \<^verbatim>\<open>.class\<close>
  and \<^verbatim>\<open>tag.class\<close>, and returns the matching elements below the node in document
  order. The theorems below hold for every engine; the examples run with this one.
\<close>

fun demo_matches :: "string \<Rightarrow> node \<Rightarrow> bool" where
  "demo_matches sel (Text s) = False"
| "demo_matches sel (Element t a cs) =
     ((before CHR ''.'' sel = [] \<or> before CHR ''.'' sel = t) \<and>
      (CHR ''.'' \<notin> set sel \<or>
       after CHR ''.'' sel \<in> set (split_on CHR '' '' (case map_of a ''class'' of None \<Rightarrow> [] | Some v \<Rightarrow> v))))"

definition demo_select :: "string \<Rightarrow> node \<Rightarrow> exn + node list" where
  "demo_select sel n = Inr (filter (demo_matches sel) (descendants n))"

text \<open>A source outside the registry, with tag selectors, and its listing page: five
  well-formed article nodes and, in third place, one without a title element.\<close>

definition example_cfg :: source_config where
  "example_cfg =
     \<lparr>cfg_name = ''Example'', cfg_url = ''https://example.com/news/'',
      article_selector = ''article'', title_selector = ''h3'', link_selector = ''a'',
      summary_selector = Some ''p'', date_selector = Some ''time''\<rparr>"

definition story :: "string \<Rightarrow> string \<Rightarrow> string \<Rightarrow> node" where
  "story headline href date =
     Element ''article'' []
       [Element ''h3'' [] [Text headline],
        Element ''a'' [(''href'', href)] [Text ''Read''],
        Element ''p'' [] [Text '' A summary. ''],
        Element ''time'' [] [Text date]]"

definition untitled_story :: node where
  "untitled_story =
     Element ''article'' []
       [Element ''a'' [(''href'', ''/story/none'')] [Text ''Read''],
        Element ''p'' [] [Text ''No headline here'']]"

definition listing_nodes :: "node list" where
  "listing_nodes =
     [story ''One'' ''/story/123'' ''2024-01-01'',
      story ''Two'' ''https://example.com/story/2'' ''2024-03-01'',
      untitled_story,
      story ''Three'' ''story/3'' ''2024-02-01'',
      story ''Four'' ''../story/4'' ''Jan 5'',
      story ''Five'' ''//cdn.example.com/story/5'' ''2 hours ago'']"

definition listing_page :: node where
  "listing_page = Element ''[document]'' [] listing_nodes"

text \<open>A second listing page: a node whose title element is empty, and a node whose link
  is a \<^verbatim>\<open>mailto:\<close> address.\<close>

definition odd_cfg :: source_config where
  "odd_cfg = example_cfg\<lparr>cfg_url := ''https://example.com/odd/''\<rparr>"

definition blank_title_node :: node where
  "blank_title_node =
     Element ''article'' []
       [Element ''h3'' [] [Text ''  ''], Element ''a'' [(''href'', ''/story/blank'')] []]"

definition odd_page :: node where
  "odd_page =
     Element ''[document]'' []
       [blank_title_node, story ''Tips'' ''mailto:tips@example.com'' ''today'']"

text \<open>Listing pages of two registered sources, in the markup their selectors expect.\<close>

definition seeking_alpha_page :: node where
  "seeking_alpha_page =
     Element ''[document]'' []
       [Element ''div'' [(''class'', ''media-preview-content'')]
          [Element ''a'' [(''class'', ''media-link''), (''href'', ''/news/1-rates'')] [Text ''Rates hold''],
           Element ''p'' [(''class'', ''media-preview-summary'')] [Text ''Central bank holds.''],
           Element ''span'' [(''class'', ''media-date'')] [Text ''2024-01-01'']],
        Element ''div'' [(''class'', ''media-preview-content'')]
          [Element ''a'' [(''class'', ''media-link''), (''href'', ''/news/2-oil'')] [Text ''Oil jumps''],
           Element ''span'' [(''class'', ''media-date'')] [Text ''2024-03-01'']]]"

definition zacks_page :: node where
  "zacks_page =
     Element ''[document]'' []
       [Element ''div'' [(''class'', ''commentary_module_row'')]
          [Element ''a'' [(''href'', ''https://www.zacks.com/stock/news/3'')] [Text ''Stocks rally''],
           Element ''p'' [] [Text ''Markets close higher.''],
           Element ''span'' [(''class'', ''date_time'')] [Text ''2024-02-01'']]]"

text \<open>Article pages: one with a body container, one whose container holds only white
  space, one with paragraphs only, one with neither.\<close>

definition body_page :: node where
  "body_page =
     Element ''[document]'' []
       [Element ''nav'' [] [Element ''p'' [] [Text ''Menu'']],
        Element ''article'' []
          [Element ''p'' [] [Text ''  First line. ''], Element ''script'' [] [Text ''x()''],
           Element ''p'' [] [Text ''Second line.'']]]"

definition blank_body_page :: node where
  "blank_body_page = Element ''[document]'' [] [Element ''article'' [] [Text ''   '']]"

definition paragraphs_page :: node where
  "paragraphs_page =
     Element ''[document]'' []
       [Element ''div'' [] [Element ''p'' [] [Text ''Alpha''], Element ''p'' [] [Text '' '']],
        Element ''p'' [] [Text ''Beta'']]"

definition bare_page :: node where
  "bare_page = Element ''[document]'' [] [Element ''div'' [] [Text ''Nothing to see'']]"

definition pages :: "(string \<times> string \<times> node) list" where
  "pages =
     [(''https://example.com/news/'', ''<listing>'', listing_page),
      (''https://example.com/odd/'', ''<odd>'', odd_page),
      (''https://seekingalpha.com/market-news'', ''<seeking alpha>'', seeking_alpha_page),
      (''https://www.zacks.com/stock-market-today'', ''<zacks>'', zacks_page),
      (''https://example.com/story/123'', ''<body>'', body_page),
      (''https://example.com/story/2'', ''<blank body>'', blank_body_page),
      (''https://example.com/story/3'', ''<paragraphs>'', paragraphs_page),
      (''https://example.com/story/4'', ''<bare>'', bare_page)]"

text \<open>Every request for a listed page succeeds at once. The request for the page of
  Finviz raises an exception that is not a \<^verbatim>\<open>RequestException\<close>; every other request
  fails with a \<^verbatim>\<open>RequestException\<close> at each attempt.\<close>

definition demo_env :: env where
  "demo_env =
     \<lparr>clock = now0, user_agent = Inr ''Mozilla/5.0'',
      http_get = (\<lambda>u k. if u = ''https://finviz.com/news.ashx''
                          then Inl (Exception ''challenge not solved'')
                        else case map_of pages u of Some (html, doc) \<Rightarrow> Inr html
                                                 | None \<Rightarrow> Inl RequestException),
      html_parser = (\<lambda>html. case map_of (map snd pages) html of
                                Some doc \<Rightarrow> doc | None \<Rightarrow> Element ''[document]'' [] []),
      css_select = demo_select, check_bracketed_host = (\<lambda>h. True)\<rparr>"

text \<open>A run over three registered sources and one unknown id, and what it should
  deliver: two articles of Seeking Alpha and one of Zacks.\<close>

definition demo_selection :: "string list" where
  "demo_selection = [''seeking_alpha'', ''finviz'', ''nope'', ''zacks'']"

definition demo_jobs :: "(string \<times> source_config) list" where
  "demo_jobs = [SOURCES ! 2, SOURCES ! 3, SOURCES ! 7]"

definition rates_stub :: article where
  "rates_stub =
     \<lparr>source_id = ''seeking_alpha'', source_name = ''Seeking Alpha'', title = ''Rates hold'',
      description = ''Central bank holds.'', url = ''https://seekingalpha.com/news/1-rates'',
      publishedAt = ''2024-01-01T00:00:00'', content = None\<rparr>"

definition oil_stub :: article where
  "oil_stub =
     \<lparr>source_id = ''seeking_alpha'', source_name = ''Seeking Alpha'', title = ''Oil jumps'',
      description = [], url = ''https://seekingalpha.com/news/2-oil'',
      publishedAt = ''2024-03-01T00:00:00'', content = None\<rparr>"

definition rally_stub :: article where
  "rally_stub =
     \<lparr>source_id = ''zacks'', source_name = ''Zacks'', title = ''Stocks rally'',
      description = ''Markets close higher.'', url = ''https://www.zacks.com/stock/news/3'',
      publishedAt = ''2024-02-01T00:00:00'', content = None\<rparr>"

definition demo_final :: "article list" where
  "demo_final = [oil_stub, rally_stub, rates_stub]"

subsection \<open>Vocabulary of the claims about the scraper\<close>

text \<open>
  For a candidate node: the title selector matches; the link selector matches an element
  that carries an \<^verbatim>\<open>href\<close>; processing the node raises. A node is kept when the first
  two hold and the third does not.
\<close>

definition title_matches :: "env \<Rightarrow> source_config \<Rightarrow> node \<Rightarrow> bool" where
  "title_matches E cfg n =
     (case select_one E (title_selector cfg) n of Inr (Some t) \<Rightarrow> True | _ \<Rightarrow> False)"

definition link_matches :: "env \<Rightarrow> source_config \<Rightarrow> node \<Rightarrow> bool" where
  "link_matches E cfg n =
     (case select_one E (link_selector cfg) n of Inr (Some l) \<Rightarrow> has_attr l ''href'' | _ \<Rightarrow> False)"

definition node_raises :: "env \<Rightarrow> string \<Rightarrow> source_config \<Rightarrow> node \<Rightarrow> bool" where
  "node_raises E sid cfg n = (case scrape_article E sid cfg n of Inl e \<Rightarrow> True | Inr r \<Rightarrow> False)"

definition kept :: "env \<Rightarrow> string \<Rightarrow> source_config \<Rightarrow> node \<Rightarrow> bool" where
  "kept E sid cfg n = (title_matches E cfg n \<and> link_matches E cfg n \<and> \<not> node_raises E sid cfg n)"

text \<open>The scheme a URL carries itself (empty when it has none), as \<^verbatim>\<open>urlsplit\<close> finds it.\<close>

definition own_scheme :: "string \<Rightarrow> string" where
  "own_scheme u = fst (split_scheme u [])"

text \<open>What the sources of a selection deliver: the articles of a source whose scrape
  returns, nothing for a source whose scrape raises (or whose page could not be fetched,
  in which case the scrape returns the empty list).\<close>

definition source_articles :: "env \<Rightarrow> string \<Rightarrow> article list" where
  "source_articles E sid =
     (case map_of SOURCES sid of
        None \<Rightarrow> []
      | Some cfg \<Rightarrow> (case scrape_source E sid cfg of Inl e \<Rightarrow> [] | Inr arts \<Rightarrow> arts))"

definition job_articles :: "env \<Rightarrow> string \<times> source_config \<Rightarrow> article list" where
  "job_articles E j = (case scrape_source E (fst j) (snd j) of Inr arts \<Rightarrow> arts | Inl e \<Rightarrow> [])"

definition enriched :: "env \<Rightarrow> bool \<Rightarrow> article list \<Rightarrow> article list" where
  "enriched E fetch_content arts =
     (if fetch_content then map (fetch_article_content E) arts else arts)"

definition newest_first :: "article list \<Rightarrow> bool" where
  "newest_first arts = sorted_wrt (\<lambda>a b. publishedAt b \<le> publishedAt a) arts"

definition old_article :: article where
  "old_article =
     \<lparr>source_id = ''cnbc'', source_name = ''CNBC'', title = ''Yesterday's news'',
      description = [], url = ''https://www.cnbc.com/old'',
      publishedAt = ''2024-03-09T08:00:00'', content = None\<rparr>"

text \<open>The stubs expected from the example listing page.\<close>

definition example_stub :: "string \<Rightarrow> string \<Rightarrow> string \<Rightarrow> article" where
  "example_stub headline link date =
     \<lparr>source_id = ''example'', source_name = ''Example'', title = headline,
      description = ''A summary.'', url = link, publishedAt = date, content = None\<rparr>"

definition listing_stubs :: "article list" where
  "listing_stubs =
     [example_stub ''One'' ''https://example.com/story/123'' ''2024-01-01T00:00:00'',
      example_stub ''Two'' ''https://example.com/story/2'' ''2024-03-01T00:00:00'',
      example_stub ''Three'' ''https://example.com/news/story/3'' ''2024-02-01T00:00:00'',
      example_stub ''Four'' ''https://example.com/story/4'' ''2024-01-05T00:00:00'',
      example_stub ''Five'' ''https://cdn.example.com/story/5'' ''2024-03-10T10:00:30.000250'']"

section \<open>Properties\<close>

subsection \<open>The date normalizer\<close>

lemma contains_iff_sublist: "contains sub s = sublist sub s"
  by (induction s) (auto simp: sublist_Cons_right)

lemma contains_digits_prefix:
  assumes "p \<noteq> []" "\<not> isdigit (hd p)" "list_all isdigit ds"
  shows "contains p (ds @ rest) = contains p rest"
  using assms
proof (induction ds)
  case Nil
  then show ?case by simp
next
  case (Cons d ds)
  then have "\<not> prefix p (d # ds @ rest)"
    by (cases p) auto
  with Cons show ?case by simp
qed

lemma dropWhile_strip: "dropWhile isspace (strip s) = strip s"
proof (cases "strip s = []")
  case True
  then show ?thesis by simp
next
  case False
  let ?a = "dropWhile isspace s"
  have a: "?a = strip s @ rev (takeWhile isspace (rev ?a))"
    unfolding strip_def
    by (metis rev_append rev_rev_ident takeWhile_dropWhile_id)
  with False have "hd ?a = hd (strip s)" "?a \<noteq> []"
    by (metis hd_append2, metis append_is_Nil_conv)
  then have "\<not> isspace (hd (strip s))"
    using hd_dropWhile[of isspace s] by simp
  then show ?thesis
    by (simp add: dropWhile_eq_self_iff)
qed

lemma strip_idem: "strip (strip s) = strip s"
proof -
  have "strip (strip s) = rev (dropWhile isspace (rev (strip s)))"
    by (simp add: strip_def[of "strip s"] dropWhile_strip)
  also have "\<dots> = strip s"
    by (simp add: strip_def)
  finally show ?thesis .
qed

lemma py_int_error: "py_int s = Inl e \<Longrightarrow> e = ValueError"
  by (auto simp: py_int_def split: if_splits)

lemma datetime_new_error: "datetime_new y m d h mi s us = Inl e \<Longrightarrow> e = ValueError"
  by (auto simp: datetime_new_def split: if_splits)

lemma try_bind_Inl: "try_bind x f = Inl e \<Longrightarrow> x = Inl e \<or> (\<exists>v. x = Inr v \<and> f v = Inl e)"
  by (cases x) auto

lemma try_bind_Inr: "try_bind x f = Inr r \<Longrightarrow> \<exists>v. x = Inr v \<and> f v = Inr r"
  by (cases x) auto

lemma read_group_error: "read_group acc kv = Inl e \<Longrightarrow> e = ValueError"
  by (cases acc; cases kv) (auto split: if_splits dest!: try_bind_Inl py_int_error)

lemma read_groups_error: "read_groups acc g = Inl e \<Longrightarrow> e = ValueError"
  by (induction g arbitrary: acc) (auto dest!: try_bind_Inl read_group_error)

lemma strptime_error: "strptime s f = Inl e \<Longrightarrow> e = ValueError"
  by (auto simp: strptime_def date_new_def Let_def split: if_splits list.splits prod.splits
      dest!: try_bind_Inl read_groups_error datetime_new_error)

lemma strptime_fields:
  assumes "strptime s f = Inr t"
  shows "check_date_fields (year t) (month t) (day t) \<and>
         hour t = 0 \<and> minute t = 0 \<and> second t = 0 \<and> microsecond t = 0"
  using assms
  by (auto simp: strptime_def date_new_def datetime_new_def Let_def
      split: if_splits list.splits prod.splits dest!: try_bind_Inr)

lemma days_in_month_1900: "days_in_month 1900 m \<le> days_in_month y m"
  by (simp add: days_in_month_def is_leap_def DAYS_IN_MONTH_def)

lemma replace_year_1900:
  assumes "strptime s f = Inr t" "year t = 1900" "MINYEAR \<le> y" "y \<le> MAXYEAR"
  shows "replace_year t y = Inr (t\<lparr>year := y\<rparr>)"
proof -
  from strptime_fields[OF assms(1)] assms(2)
  have f: "check_date_fields 1900 (month t) (day t)"
    "hour t = 0" "minute t = 0" "second t = 0" "microsecond t = 0" by auto
  then have "check_date_fields y (month t) (day t)"
    using assms(3,4) days_in_month_1900[of "month t" y]
    by (auto simp: check_date_fields_def)
  with f show ?thesis
    by (simp add: replace_year_def datetime_new_def check_time_fields_def)
qed

lemma try_formats_none:
  assumes "\<forall>f\<in>set fmts. \<exists>e. strptime (strip t) f = Inl e"
  shows "try_formats now t fmts = Inr (isoformat now)"
  using assms
proof (induction fmts)
  case Nil
  then show ?case by simp
next
  case (Cons f fmts)
  then obtain e where "strptime (strip t) f = Inl e" by auto
  with strptime_error[OF this] have "strptime (strip t) f = Inl ValueError" by simp
  with Cons show ?case by simp
qed

lemma try_formats_first:
  assumes "List.find (parses (strip t)) fmts = Some f" "strptime (strip t) f = Inr d"
    "MINYEAR \<le> year now" "year now \<le> MAXYEAR"
  shows "try_formats now t fmts =
           Inr (isoformat (if year d = 1900 then d\<lparr>year := year now\<rparr> else d))"
  using assms(1)
proof (induction fmts)
  case Nil
  then show ?case by simp
next
  case (Cons g fmts)
  show ?case
  proof (cases "parses (strip t) g")
    case True
    with Cons.prems have "g = f" by simp
    with assms(2-4) replace_year_1900[OF assms(2) _ assms(3,4)] show ?thesis
      by simp
  next
    case False
    then obtain e where "strptime (strip t) g = Inl e"
      by (auto simp: parses_def split: sum.splits)
    with strptime_error[OF this] have "strptime (strip t) g = Inl ValueError" by simp
    moreover from False Cons.prems have "List.find (parses (strip t)) fmts = Some f" by simp
    ultimately show ?thesis using Cons.IH by simp
  qed
qed

lemma filter_isdigit_digits: "list_all isdigit ds \<Longrightarrow> filter isdigit ds = ds"
  by (induction ds) auto

lemma relative_unit_digits_prefix:
  assumes "list_all isdigit ds"
  shows "relative_unit (ds @ rest) = relative_unit rest"
  unfolding relative_unit_def
  by (simp add: contains_digits_prefix[OF _ _ assms] isdigit_def)

lemma relative_units_detected:
  "list_all (\<lambda>(u, unit_us). relative_unit ('' '' @ u @ '' ago'') = Some unit_us
                          \<and> filter isdigit ('' '' @ u @ '' ago'') = []) relative_units"
  by code_simp

lemma contains_ago_suffix: "contains ''ago'' (pre @ ''ago'')"
  unfolding contains_iff_sublist sublist_def
  by (intro exI[of _ pre] exI[of _ "[]"]) simp

lemma parse_date_try_relative:
  assumes ds: "list_all isdigit ds" and u: "(u, unit_us) \<in> set relative_units"
    and t: "strip (lower raw) = ds @ '' '' @ u @ '' ago''"
  shows "parse_date_try now raw =
           try_bind (py_int ds) (\<lambda>n.
           try_bind (datetime_minus now (n * unit_us)) (\<lambda>date. Inr (isoformat date)))"
proof -
  have "\<forall>x\<in>set relative_units. case x of (u, unit_us) \<Rightarrow>
          relative_unit ('' '' @ u @ '' ago'') = Some unit_us
          \<and> filter isdigit ('' '' @ u @ '' ago'') = []"
    using relative_units_detected unfolding list_all_iff .
  from bspec[OF this u]
  have d: "relative_unit ('' '' @ u @ '' ago'') = Some unit_us"
    and f: "filter isdigit ('' '' @ u @ '' ago'') = []"
    by (simp_all only: prod.case)
  have a: "contains ''ago'' (ds @ '' '' @ u @ '' ago'')"
    using contains_ago_suffix[of "ds @ '' '' @ u @ '' ''"] by simp
  have r: "relative_unit (ds @ '' '' @ u @ '' ago'') = Some unit_us"
    using relative_unit_digits_prefix[OF ds, of "'' '' @ u @ '' ago''"] d by simp
  have g: "filter isdigit (ds @ '' '' @ u @ '' ago'') = ds"
    using f ds by (simp add: filter_isdigit_digits)
  show ?thesis
    unfolding parse_date_try_def Let_def t
    by (simp only: a r g if_True option.case ago_def)
qed

text \<open>
  Claim C1, as amended. For a text that, lower-cased and stripped, has the form
  \<open>N unit ago\<close> (a non-empty run of digits, a space, one of the supported unit words, a
  space, \<open>ago\<close>), the normalizer reads the number formed by the digits of the text, which
  is \<open>N\<close>, and returns the ISO form of \<open>now\<close> minus \<open>N\<close> units (a month counts 30 days)
  whenever Python can represent that duration and that instant; otherwise the subtraction
  raises, the handler takes over, and the result is \<open>now\<close>.
\<close>

theorem C1_relative_dates:
  assumes "ds \<noteq> []" "list_all isdigit ds" "(u, unit_us) \<in> set relative_units"
    and "strip (lower raw) = ds @ '' '' @ u @ '' ago''"
  shows "parse_date now raw =
           (case datetime_minus now (decimal_value ds * unit_us) of
              Inr date \<Rightarrow> isoformat date
            | Inl e \<Rightarrow> isoformat now)"
  using assms(1,2)
  by (simp add: parse_date_def parse_date_try_relative[OF assms(2,3,4)] py_int_def
      split: sum.splits)


theorem C1_witness:
  "[CHR ''5''] \<noteq> [] \<and> list_all isdigit ''5'' \<and> (''minutes'', 60 * US_PER_SECOND) \<in> set relative_units \<and>
   strip (lower ''5 Minutes ago '') = ''5'' @ '' '' @ ''minutes'' @ '' ago'' \<and>
   datetime_minus now0 (5 * (60 * US_PER_SECOND)) =
     Inr \<lparr>year = 2024, month = 3, day = 10, hour = 11, minute = 55, second = 30, microsecond = 250\<rparr> \<and>
   parse_date now0 ''5 Minutes ago '' = ''2024-03-10T11:55:30.000250''"
proof -
  have h1: "[CHR ''5''] \<noteq> []" by simp
  have h2: "list_all isdigit ''5''" by code_simp
  have h3: "(''minutes'', 60 * US_PER_SECOND) \<in> set relative_units" by code_simp
  have h4: "strip (lower ''5 Minutes ago '') = ''5'' @ '' '' @ ''minutes'' @ '' ago''" by code_simp
  have v: "decimal_value ''5'' = 5" by code_simp
  have m: "datetime_minus now0 (5 * (60 * US_PER_SECOND)) =
     Inr \<lparr>year = 2024, month = 3, day = 10, hour = 11, minute = 55, second = 30, microsecond = 250\<rparr>"
    by code_simp
  have i: "isoformat \<lparr>year = 2024, month = 3, day = 10, hour = 11, minute = 55, second = 30, microsecond = 250\<rparr>
      = ''2024-03-10T11:55:30.000250''" by code_simp
  from C1_relative_dates[OF h1 h2 h3 h4, of now0]
  have "parse_date now0 ''5 Minutes ago '' = ''2024-03-10T11:55:30.000250''"
    by (simp only: v m i sum.case)
  with h1 h2 h3 h4 m show ?thesis by blast
qed

text \<open>
  The claim as stated fails for a large count: one million days before the reference time
  lies before year 1, the subtraction raises \<^verbatim>\<open>OverflowError\<close>, and the normalizer
  returns \<open>now\<close> itself instead of an earlier instant.
\<close>

theorem C1_counterexample:
  "parse_date now0 ''1000000 days ago'' = isoformat now0 \<and>
   datetime_minus now0 (1000000 * US_PER_DAY) = Inl OverflowError"
  by code_simp

lemma try_formats_isoformat:
  "try_formats now t fmts = Inr r \<Longrightarrow> \<exists>d. r = isoformat d"
proof (induction fmts)
  case Nil
  then show ?case by auto
next
  case (Cons f fmts)
  show ?case
  proof (cases "strptime (strip t) f")
    case (Inl e)
    with strptime_error[OF this] Cons show ?thesis by simp
  next
    case (Inr d)
    with Cons.prems Cons.IH show ?thesis
      by (cases "year d = 1900"; cases "replace_year d (year now)")
         (auto split: exn.splits)
  qed
qed

lemma parse_date_try_isoformat:
  assumes "parse_date_try now raw = Inr r"
  shows "\<exists>d. r = isoformat d"
proof -
  let ?t = "strip (lower raw)"
  consider (a) "contains ''ago'' ?t"
    | (b) "\<not> contains ''ago'' ?t" "contains ''today'' ?t"
    | (c) "\<not> contains ''ago'' ?t" "\<not> contains ''today'' ?t" "contains ''yesterday'' ?t"
    | (d) "\<not> contains ''ago'' ?t" "\<not> contains ''today'' ?t" "\<not> contains ''yesterday'' ?t"
    by blast
  then show ?thesis
  proof cases
    case a
    with assms show ?thesis
      by (auto simp: parse_date_try_def Let_def ago_def split: option.splits dest!: try_bind_Inr)
  next
    case b
    with assms show ?thesis by (auto simp: parse_date_try_def Let_def)
  next
    case c
    with assms show ?thesis
      by (auto simp: parse_date_try_def Let_def dest!: try_bind_Inr)
  next
    case d
    with assms have "try_formats now ?t date_formats = Inr r"
      by (simp add: parse_date_try_def Let_def)
    then show ?thesis by (rule try_formats_isoformat)
  qed
qed

text \<open>
  Claim C8. The date normalizer is total. Whatever the text, it returns the ISO form of
  some timestamp; when the body of its \<^verbatim>\<open>try\<close> block raises, the result is \<open>now\<close>; and when
  the text holds neither \<open>ago\<close> nor \<open>today\<close> nor \<open>yesterday\<close> and none of the fourteen
  formats parses it, the result is \<open>now\<close> as well.
\<close>

theorem C8_parse_date_total:
  "(\<exists>d. parse_date now raw = isoformat d) \<and>
   (\<forall>e. parse_date_try now raw = Inl e \<longrightarrow> parse_date now raw = isoformat now) \<and>
   (\<not> contains ''ago'' (strip (lower raw)) \<and> \<not> contains ''today'' (strip (lower raw)) \<and>
    \<not> contains ''yesterday'' (strip (lower raw)) \<and>
    (\<forall>f\<in>set date_formats. \<not> parses (strip (lower raw)) f)
      \<longrightarrow> parse_date now raw = isoformat now)"
proof (intro conjI allI impI)
  show "\<exists>d. parse_date now raw = isoformat d"
  proof (cases "parse_date_try now raw")
    case (Inl e)
    then show ?thesis by (auto simp: parse_date_def)
  next
    case (Inr r)
    with parse_date_try_isoformat[OF this] show ?thesis by (simp add: parse_date_def)
  qed
next
  fix e assume "parse_date_try now raw = Inl e"
  then show "parse_date now raw = isoformat now" by (simp add: parse_date_def)
next
  let ?t = "strip (lower raw)"
  assume a: "\<not> contains ''ago'' ?t \<and> \<not> contains ''today'' ?t \<and>
    \<not> contains ''yesterday'' ?t \<and> (\<forall>f\<in>set date_formats. \<not> parses ?t f)"
  have "\<forall>f\<in>set date_formats. \<exists>e. strptime (strip ?t) f = Inl e"
  proof
    fix f assume "f \<in> set date_formats"
    with a have "\<not> parses ?t f" by blast
    then show "\<exists>e. strptime (strip ?t) f = Inl e"
      by (cases "strptime ?t f") (auto simp: parses_def strip_idem)
  qed
  from try_formats_none[OF this] a show "parse_date now raw = isoformat now"
    by (simp add: parse_date_def parse_date_try_def Let_def)
qed

theorem C8_witness:
  "\<not> contains ''ago'' (strip (lower ''not a date'')) \<and> \<not> contains ''today'' (strip (lower ''not a date'')) \<and>
   \<not> contains ''yesterday'' (strip (lower ''not a date'')) \<and>
   list_all (\<lambda>f. \<not> parses (strip (lower ''not a date'')) f) date_formats \<and>
   parse_date now0 ''not a date'' = isoformat now0 \<and>
   parse_date_try now0 ''minutes ago'' = Inl ValueError \<and>
   parse_date now0 ''minutes ago'' = isoformat now0"
proof -
  have h: "\<not> contains ''ago'' (strip (lower ''not a date''))"
    "\<not> contains ''today'' (strip (lower ''not a date''))"
    "\<not> contains ''yesterday'' (strip (lower ''not a date''))"
    "list_all (\<lambda>f. \<not> parses (strip (lower ''not a date'')) f) date_formats"
    by code_simp+
  have e: "parse_date_try now0 ''minutes ago'' = Inl ValueError" by code_simp
  from h(4) have "\<forall>f\<in>set date_formats. \<not> parses (strip (lower ''not a date'')) f"
    by (simp only: list_all_iff)
  with h C8_parse_date_total[of now0 "''not a date''"]
  have 1: "parse_date now0 ''not a date'' = isoformat now0" by blast
  from e C8_parse_date_total[of now0 "''minutes ago''"]
  have 2: "parse_date now0 ''minutes ago'' = isoformat now0" by blast
  from h e 1 2 show ?thesis by blast
qed

text \<open>
  Claim C10. When the first format that parses the text yields a date in the year 1900
  (the default of a format without a year, or a year written out as 1900), the result is
  that date with its year replaced by the year of \<open>now\<close>.
\<close>

theorem C10_year_1900_replaced:
  assumes "\<not> contains ''ago'' (strip (lower raw))" "\<not> contains ''today'' (strip (lower raw))"
    "\<not> contains ''yesterday'' (strip (lower raw))"
    and "List.find (parses (strip (lower raw))) date_formats = Some f"
    and "strptime (strip (lower raw)) f = Inr d" and "year d = 1900"
    and "MINYEAR \<le> year now" "year now \<le> MAXYEAR"
  shows "parse_date now raw = isoformat (d\<lparr>year := year now\<rparr>)"
proof -
  let ?t = "strip (lower raw)"
  have s: "strip ?t = ?t" by (rule strip_idem)
  from assms(4,5) have "List.find (parses (strip ?t)) date_formats = Some f"
    "strptime (strip ?t) f = Inr d" by (simp_all only: s)
  from try_formats_first[OF this assms(7,8)] assms(6)
  have "try_formats now ?t date_formats = Inr (isoformat (d\<lparr>year := year now\<rparr>))"
    by simp
  with assms(1-3) show ?thesis
    by (simp add: parse_date_def parse_date_try_def Let_def)
qed

theorem C10_witness:
  "\<not> contains ''ago'' (strip (lower ''Jan 5, 1900'')) \<and> \<not> contains ''today'' (strip (lower ''Jan 5, 1900'')) \<and>
   \<not> contains ''yesterday'' (strip (lower ''Jan 5, 1900'')) \<and>
   List.find (parses (strip (lower ''Jan 5, 1900''))) date_formats = Some ''%b %d, %Y'' \<and>
   strptime (strip (lower ''Jan 5, 1900'')) ''%b %d, %Y'' =
     Inr \<lparr>year = 1900, month = 1, day = 5, hour = 0, minute = 0, second = 0, microsecond = 0\<rparr> \<and>
   MINYEAR \<le> year now0 \<and> year now0 \<le> MAXYEAR \<and>
   parse_date now0 ''Jan 5, 1900'' = ''2024-01-05T00:00:00''"
proof -
  let ?d = "\<lparr>year = 1900, month = 1, day = 5, hour = 0, minute = 0, second = 0, microsecond = 0\<rparr>"
  have h1: "\<not> contains ''ago'' (strip (lower ''Jan 5, 1900''))" by code_simp
  have h2: "\<not> contains ''today'' (strip (lower ''Jan 5, 1900''))" by code_simp
  have h3: "\<not> contains ''yesterday'' (strip (lower ''Jan 5, 1900''))" by code_simp
  have h4: "List.find (parses (strip (lower ''Jan 5, 1900''))) date_formats = Some ''%b %d, %Y''"
    by code_simp
  have h5: "strptime (strip (lower ''Jan 5, 1900'')) ''%b %d, %Y'' = Inr ?d" by code_simp
  have h6: "year ?d = 1900" by simp
  have h7: "MINYEAR \<le> year now0" by code_simp
  have h8: "year now0 \<le> MAXYEAR" by code_simp
  have i: "isoformat (?d\<lparr>year := year now0\<rparr>) = ''2024-01-05T00:00:00''" by code_simp
  from C10_year_1900_replaced[OF h1 h2 h3 h4 h5 h6 h7 h8] i
  have "parse_date now0 ''Jan 5, 1900'' = ''2024-01-05T00:00:00''" by simp
  with h1 h2 h3 h4 h5 h7 h8 show ?thesis by blast
qed

subsection \<open>The source extractor\<close>

lemma scrape_loop_append:
  "scrape_loop E sid cfg nodes acc = acc @ scrape_loop E sid cfg nodes []"
proof (induction nodes arbitrary: acc)
  case Nil
  then show ?case by simp
next
  case (Cons n nodes)
  let ?step = "\<lambda>acc. case scrape_article E sid cfg n of
                  Inr (Some a) \<Rightarrow> acc @ [a] | Inr None \<Rightarrow> acc | Inl e \<Rightarrow> acc"
  have "scrape_loop E sid cfg (n # nodes) acc = ?step acc @ scrape_loop E sid cfg nodes []"
    using Cons.IH[of "?step acc"] by simp
  moreover have "scrape_loop E sid cfg (n # nodes) [] = ?step [] @ scrape_loop E sid cfg nodes []"
    using Cons.IH[of "?step []"] by simp
  moreover have "?step acc = acc @ ?step []"
    by (simp split: sum.splits option.splits)
  ultimately show ?case by simp
qed

lemma get_attr_has: "has_attr n k \<Longrightarrow> \<exists>v. get_attr n k = Inr v"
  by (auto simp: has_attr_def get_attr_def)

lemma scrape_article_skip:
  assumes "scrape_article E sid cfg n = Inr None"
  shows "\<not> title_matches E cfg n \<or> \<not> link_matches E cfg n"
proof (rule ccontr)
  assume "\<not> ?thesis"
  then obtain t l where t: "select_one E (title_selector cfg) n = Inr (Some t)"
    and l: "select_one E (link_selector cfg) n = Inr (Some l)" and h: "has_attr l ''href''"
    by (auto simp: title_matches_def link_matches_def split: sum.splits option.splits)
  from get_attr_has[OF h] obtain v where v: "get_attr l ''href'' = Inr v" by blast
  from assms show False
    unfolding scrape_article_def
    by (simp add: t l h v Let_def) (auto dest!: try_bind_Inr)
qed

lemma scrape_article_stub:
  assumes "scrape_article E sid cfg n = Inr (Some a)"
  shows "title_matches E cfg n \<and> link_matches E cfg n"
  using assms unfolding scrape_article_def title_matches_def link_matches_def
  by (auto simp: Let_def split: sum.splits option.splits if_splits dest!: try_bind_Inr)

lemma kept_iff: "kept E sid cfg n \<longleftrightarrow> (\<exists>a. scrape_article E sid cfg n = Inr (Some a))"
proof
  assume k: "kept E sid cfg n"
  show "\<exists>a. scrape_article E sid cfg n = Inr (Some a)"
  proof (cases "scrape_article E sid cfg n")
    case (Inl e)
    with k show ?thesis by (simp add: kept_def node_raises_def)
  next
    case (Inr r)
    show ?thesis
    proof (cases r)
      case None
      with Inr scrape_article_skip[of E sid cfg n] k show ?thesis by (simp add: kept_def)
    next
      case (Some a)
      with Inr show ?thesis by simp
    qed
  qed
next
  assume "\<exists>a. scrape_article E sid cfg n = Inr (Some a)"
  then obtain a where a: "scrape_article E sid cfg n = Inr (Some a)" by blast
  from scrape_article_stub[OF a] a show "kept E sid cfg n"
    by (simp add: kept_def node_raises_def)
qed

lemma scrape_loop_kept:
  "list_all2 (\<lambda>n a. scrape_article E sid cfg n = Inr (Some a))
     (filter (kept E sid cfg) nodes) (scrape_loop E sid cfg nodes [])"
proof (induction nodes)
  case Nil
  then show ?case by simp
next
  case (Cons n nodes)
  show ?case
  proof (cases "kept E sid cfg n")
    case True
    then obtain a where a: "scrape_article E sid cfg n = Inr (Some a)"
      by (auto simp: kept_iff)
    then have "scrape_loop E sid cfg (n # nodes) [] = a # scrape_loop E sid cfg nodes []"
      using scrape_loop_append[of E sid cfg nodes "[a]"] by simp
    with True a Cons show ?thesis by simp
  next
    case False
    then have "\<forall>a. scrape_article E sid cfg n \<noteq> Inr (Some a)"
      by (auto simp: kept_iff)
    then have "scrape_loop E sid cfg (n # nodes) [] = scrape_loop E sid cfg nodes []"
      by (auto split: sum.splits option.splits)
    with False Cons show ?thesis by simp
  qed
qed

lemma scrape_article_title:
  assumes "scrape_article E sid cfg n = Inr (Some a)"
  shows "\<exists>t. select_one E (title_selector cfg) n = Inr (Some t) \<and> title a = strip (get_text [] t)"
  using assms unfolding scrape_article_def
  by (auto simp: Let_def split: sum.splits option.splits if_splits dest!: try_bind_Inr)

text \<open>
  Claim C2, as amended. From the candidate nodes the article selector finds, the
  extractor produces one stub per kept node, in document order, where a node is kept when
  its title selector matches, its link selector matches an element with an \<^verbatim>\<open>href\<close>, and
  nothing raises while the node is processed; all other nodes are skipped. The title of a
  stub is the stripped text of the title element, which may be empty: the text is not
  tested. The example listing has six candidate nodes, the third without a title
  element, and yields the five stubs of the others in document order.
\<close>

theorem C2_extract_in_document_order:
  assumes "css_select E (article_selector cfg) (html_parser E html) = Inr nodes"
  shows "\<exists>stubs. extract_articles E sid cfg html = Inr stubs \<and>
           list_all2 (\<lambda>n a. scrape_article E sid cfg n = Inr (Some a) \<and>
                        (\<exists>t. select_one E (title_selector cfg) n = Inr (Some t) \<and>
                             title a = strip (get_text [] t)))
             (filter (kept E sid cfg) nodes) stubs"
proof -
  have "list_all2 (\<lambda>n a. scrape_article E sid cfg n = Inr (Some a))
          (filter (kept E sid cfg) nodes) (scrape_loop E sid cfg nodes [])"
    by (rule scrape_loop_kept)
  then have "list_all2 (\<lambda>n a. scrape_article E sid cfg n = Inr (Some a) \<and>
                        (\<exists>t. select_one E (title_selector cfg) n = Inr (Some t) \<and>
                             title a = strip (get_text [] t)))
          (filter (kept E sid cfg) nodes) (scrape_loop E sid cfg nodes [])"
    by (rule list_all2_mono) (auto dest: scrape_article_title)
  with assms show ?thesis by (simp add: extract_articles_def)
qed

theorem C2_witness:
  "css_select demo_env (article_selector example_cfg) (html_parser demo_env ''<listing>'')
     = Inr listing_nodes \<and>
   length listing_nodes = 6 \<and>
   filter (kept demo_env ''example'' example_cfg) listing_nodes
     = [listing_nodes ! 0, listing_nodes ! 1, listing_nodes ! 3, listing_nodes ! 4, listing_nodes ! 5] \<and>
   \<not> title_matches demo_env example_cfg (listing_nodes ! 2) \<and>
   (\<exists>stubs. extract_articles demo_env ''example'' example_cfg ''<listing>'' = Inr stubs \<and>
      map title stubs = [''One'', ''Two'', ''Three'', ''Four'', ''Five''] \<and>
      list_all2 (\<lambda>n a. scrape_article demo_env ''example'' example_cfg n = Inr (Some a) \<and>
                   (\<exists>t. select_one demo_env (title_selector example_cfg) n = Inr (Some t) \<and>
                        title a = strip (get_text [] t)))
        (filter (kept demo_env ''example'' example_cfg) listing_nodes) stubs)"
proof -
  have h: "css_select demo_env (article_selector example_cfg) (html_parser demo_env ''<listing>'')
     = Inr listing_nodes" by code_simp
  have l: "length listing_nodes = 6" by code_simp
  have k: "filter (kept demo_env ''example'' example_cfg) listing_nodes
     = [listing_nodes ! 0, listing_nodes ! 1, listing_nodes ! 3, listing_nodes ! 4, listing_nodes ! 5]"
    by code_simp
  have m: "\<not> title_matches demo_env example_cfg (listing_nodes ! 2)" by code_simp
  have t: "map_sum id (map title) (extract_articles demo_env ''example'' example_cfg ''<listing>'')
     = Inr [''One'', ''Two'', ''Three'', ''Four'', ''Five'']" by code_simp
  from C2_extract_in_document_order[OF h, of "''example''"] obtain stubs where
    s: "extract_articles demo_env ''example'' example_cfg ''<listing>'' = Inr stubs"
      "list_all2 (\<lambda>n a. scrape_article demo_env ''example'' example_cfg n = Inr (Some a) \<and>
                   (\<exists>t. select_one demo_env (title_selector example_cfg) n = Inr (Some t) \<and>
                        title a = strip (get_text [] t)))
        (filter (kept demo_env ''example'' example_cfg) listing_nodes) stubs"
    by blast
  from s(1) t have "map title stubs = [''One'', ''Two'', ''Three'', ''Four'', ''Five'']" by simp
  with s have ex: "\<exists>stubs. extract_articles demo_env ''example'' example_cfg ''<listing>'' = Inr stubs \<and>
      map title stubs = [''One'', ''Two'', ''Three'', ''Four'', ''Five''] \<and>
      list_all2 (\<lambda>n a. scrape_article demo_env ''example'' example_cfg n = Inr (Some a) \<and>
                   (\<exists>t. select_one demo_env (title_selector example_cfg) n = Inr (Some t) \<and>
                        title a = strip (get_text [] t)))
        (filter (kept demo_env ''example'' example_cfg) listing_nodes) stubs"
    by (intro exI[of _ stubs]) simp
  from h l k m ex show ?thesis by (intro conjI)
qed

text \<open>
  The claim as stated fails on a node whose title element matches but holds only white
  space: the node is not skipped and its stub has the empty title.
\<close>

theorem C2_counterexample:
  "select_one demo_env (title_selector odd_cfg) blank_title_node
     = Inr (Some (Element ''h3'' [] [Text ''  ''])) \<and>
   strip (get_text [] (Element ''h3'' [] [Text ''  ''])) = [] \<and>
   scrape_article demo_env ''odd'' odd_cfg blank_title_node =
     Inr (Some \<lparr>source_id = ''odd'', source_name = ''Example'', title = [], description = [],
                url = ''https://example.com/story/blank'',
                publishedAt = ''2024-03-10T12:00:30.000250'', content = None\<rparr>) \<and>
   map_sum id (map title) (extract_articles demo_env ''odd'' odd_cfg ''<odd>'') = Inr [[], ''Tips'']"
  by code_simp

lemma startswithE:
  assumes "startswith s p"
  obtains r where "s = p @ r"
  using assms by (auto simp: startswith_def prefix_def)

lemma split_scheme_https: "fst (split_scheme (''https://'' @ r) d) = ''https''"
  by (simp add: split_scheme_def remove_unsafe_def UNSAFE_URL_BYTES_TO_REMOVE_def
      C0_CONTROL_OR_SPACE_def before_def isalpha_def scheme_chars_def isdigit_def
      lower_def lower_char_def Let_def)

lemma split_scheme_http: "fst (split_scheme (''http://'' @ r) d) = ''http''"
  by (simp add: split_scheme_def remove_unsafe_def UNSAFE_URL_BYTES_TO_REMOVE_def
      C0_CONTROL_OR_SPACE_def before_def isalpha_def scheme_chars_def isdigit_def
      lower_def lower_char_def Let_def)

lemma split_scheme_default:
  assumes "d = ''https'' \<or> d = ''http''"
  shows "fst (split_scheme u d) = d \<or> (fst (split_scheme u d) = own_scheme u \<and> own_scheme u \<noteq> [])"
  using assms
  by (auto simp: split_scheme_def own_scheme_def Let_def remove_unsafe_def
      UNSAFE_URL_BYTES_TO_REMOVE_def C0_CONTROL_OR_SPACE_def lower_def)

lemma urlsplit_scheme:
  "urlsplit chk u d = Inr (scheme, rest) \<Longrightarrow> scheme = fst (split_scheme u d)"
  by (auto simp: urlsplit_def Let_def split: prod.splits if_splits dest!: try_bind_Inr)

lemma urlparse_scheme:
  "urlparse chk u d = Inr (scheme, rest) \<Longrightarrow> scheme = fst (split_scheme u d)"
  by (auto simp: urlparse_def split: prod.splits if_splits dest!: try_bind_Inr urlsplit_scheme)

lemma urlunparse_http:
  assumes "scheme = ''https'' \<or> scheme = ''http''"
  shows "startswith (urlunparse (scheme, netloc, path, params, query, fragment)) (scheme @ ''://'')"
  using assms
  by (auto simp: urlunparse_def urlunsplit_def Let_def startswith_def uses_netloc_def)

lemma urljoin_absolute:
  assumes j: "urljoin chk base href = Inr r"
    and b: "startswith base ''https://'' \<or> startswith base ''http://''"
  shows "startswith r ''https://'' \<or> startswith r ''http://'' \<or> (r = href \<and> own_scheme href \<noteq> [])"
proof (cases "href = []")
  case True
  with j b show ?thesis by (auto simp: urljoin_def startswith_def split: if_splits)
next
  case False
  from b have bne: "base \<noteq> []" by (auto simp: startswith_def)
  from j False bne obtain bscheme bnetloc bpath bparams bquery bfragment
    scheme netloc path params query fragment
    where pb: "urlparse chk base [] = Inr (bscheme, bnetloc, bpath, bparams, bquery, bfragment)"
      and pu: "urlparse chk href bscheme = Inr (scheme, netloc, path, params, query, fragment)"
    by (auto simp: urljoin_def dest!: try_bind_Inr)
  from b have bs: "bscheme = ''https'' \<or> bscheme = ''http''"
    using urlparse_scheme[OF pb] split_scheme_https split_scheme_http
    by (auto elim!: startswithE)
  have s: "scheme = fst (split_scheme href bscheme)" by (rule urlparse_scheme[OF pu])
  show ?thesis
  proof (cases "scheme = bscheme")
    case False
    with j \<open>href \<noteq> []\<close> bne pb pu have "r = href" by (simp add: urljoin_def)
    moreover from split_scheme_default[OF bs, of href] s False have "own_scheme href \<noteq> []"
      by auto
    ultimately show ?thesis by simp
  next
    case True
    with bs have rel: "scheme \<in> set uses_relative" "scheme \<in> set uses_netloc"
      by (auto simp: uses_relative_def uses_netloc_def)
    from True bs have sc: "scheme = ''https'' \<or> scheme = ''http''" by simp
    from j \<open>href \<noteq> []\<close> bne pb pu True rel
    obtain n p pa q f where "r = urlunparse (scheme, n, p, pa, q, f)"
      by (auto simp: urljoin_def Let_def split: if_splits)
    with urlunparse_http[OF sc, of n p pa q f] sc show ?thesis
      by auto
  qed
qed

lemma list_all2_member:
  assumes "list_all2 P xs ys" "y \<in> set ys"
  shows "\<exists>x\<in>set xs. P x y"
  using assms by (induction rule: list_all2_induct) auto

lemma scrape_source_stub:
  assumes "scrape_source E sid cfg = Inr stubs" "a \<in> set stubs"
  shows "\<exists>n. scrape_article E sid cfg n = Inr (Some a)"
proof -
  from assms obtain html nodes where "stubs = scrape_loop E sid cfg nodes []"
    by (auto simp: scrape_source_def extract_articles_def split: if_splits dest!: try_bind_Inr)
  with scrape_loop_kept[of E sid cfg nodes] assms(2) show ?thesis
    by (auto dest: list_all2_member)
qed

lemma scrape_article_url:
  assumes "scrape_article E sid cfg n = Inr (Some a)"
  shows "\<exists>l href. select_one E (link_selector cfg) n = Inr (Some l) \<and> get_attr l ''href'' = Inr href \<and>
          absolute_link E cfg href = Inr (url a)"
  using assms unfolding scrape_article_def
  by (auto simp: Let_def split: sum.splits option.splits if_splits dest!: try_bind_Inr)

lemma absolute_link_absolute:
  assumes "absolute_link E cfg href = Inr r"
    and "startswith (cfg_url cfg) ''https://'' \<or> startswith (cfg_url cfg) ''http://''"
  shows "startswith r ''https://'' \<or> startswith r ''http://'' \<or> (r = href \<and> own_scheme href \<noteq> [])"
proof (cases "startswith href ''http://'' \<or> startswith href ''https://''")
  case True
  with assms(1) show ?thesis by (auto simp: absolute_link_def)
next
  case False
  with assms(1) have "urljoin (check_bracketed_host E) (cfg_url cfg) href = Inr r"
    by (simp add: absolute_link_def)
  from urljoin_absolute[OF this assms(2)] show ?thesis .
qed

text \<open>
  Claim C3, as amended. For a source whose base URL starts with \<^verbatim>\<open>https://\<close> or
  \<^verbatim>\<open>http://\<close> (every registered source does), the URL of every stub is the link of some
  \<^verbatim>\<open>href\<close> made absolute: an \<^verbatim>\<open>href\<close> that starts with \<^verbatim>\<open>http://\<close> or \<^verbatim>\<open>https://\<close> is kept,
  any other is joined to the base URL. The result starts with \<^verbatim>\<open>https://\<close> or
  \<^verbatim>\<open>http://\<close>, or it is the \<^verbatim>\<open>href\<close> itself, which then carries a scheme of its own. The
  \<^verbatim>\<open>href\<close> \<^verbatim>\<open>/story/123\<close> with base \<^verbatim>\<open>https://example.com/news/\<close> gives
  \<^verbatim>\<open>https://example.com/story/123\<close>.
\<close>

theorem C3_stub_urls_absolute:
  assumes "scrape_source E sid cfg = Inr stubs" "a \<in> set stubs"
    and "startswith (cfg_url cfg) ''https://'' \<or> startswith (cfg_url cfg) ''http://''"
  shows "\<exists>href. absolute_link E cfg href = Inr (url a) \<and>
           (startswith (url a) ''https://'' \<or> startswith (url a) ''http://'' \<or>
            (url a = href \<and> own_scheme href \<noteq> []))"
proof -
  from scrape_source_stub[OF assms(1,2)] obtain n where "scrape_article E sid cfg n = Inr (Some a)"
    by blast
  from scrape_article_url[OF this] obtain href where h: "absolute_link E cfg href = Inr (url a)"
    by blast
  from absolute_link_absolute[OF h assms(3)] h show ?thesis by blast
qed

theorem C3_witness:
  "scrape_source demo_env ''example'' example_cfg = Inr listing_stubs \<and>
   listing_stubs ! 0 \<in> set listing_stubs \<and>
   startswith (cfg_url example_cfg) ''https://'' \<and>
   cfg_url example_cfg = ''https://example.com/news/'' \<and>
   get_attr (Element ''a'' [(''href'', ''/story/123'')] [Text ''Read'']) ''href'' = Inr ''/story/123'' \<and>
   absolute_link demo_env example_cfg ''/story/123'' = Inr ''https://example.com/story/123'' \<and>
   url (listing_stubs ! 0) = ''https://example.com/story/123'' \<and>
   (\<exists>href. absolute_link demo_env example_cfg href = Inr (url (listing_stubs ! 0)))"
proof -
  have h1: "scrape_source demo_env ''example'' example_cfg = Inr listing_stubs" by code_simp
  have h2: "listing_stubs ! 0 \<in> set listing_stubs" by code_simp
  have h3: "startswith (cfg_url example_cfg) ''https://''" by code_simp
  have c: "cfg_url example_cfg = ''https://example.com/news/''" by code_simp
  have g: "get_attr (Element ''a'' [(''href'', ''/story/123'')] [Text ''Read'']) ''href'' = Inr ''/story/123''"
    by code_simp
  have j: "absolute_link demo_env example_cfg ''/story/123'' = Inr ''https://example.com/story/123''"
    by code_simp
  have u: "url (listing_stubs ! 0) = ''https://example.com/story/123''" by code_simp
  from C3_stub_urls_absolute[OF h1 h2 disjI1[OF h3]]
  have e: "\<exists>href. absolute_link demo_env example_cfg href = Inr (url (listing_stubs ! 0))" by blast
  from h1 h2 h3 c g j u e show ?thesis by (intro conjI)
qed

text \<open>
  The claim as stated fails for an \<^verbatim>\<open>href\<close> with another scheme: a \<^verbatim>\<open>mailto:\<close> link is
  returned by \<^verbatim>\<open>urljoin\<close> unchanged and becomes the URL of the stub.
\<close>

theorem C3_counterexample:
  "map_sum id (map url) (scrape_source demo_env ''odd'' odd_cfg)
     = Inr [''https://example.com/story/blank'', ''mailto:tips@example.com''] \<and>
   absolute_link demo_env odd_cfg ''mailto:tips@example.com'' = Inr ''mailto:tips@example.com'' \<and>
   own_scheme ''mailto:tips@example.com'' = ''mailto'' \<and>
   \<not> startswith ''mailto:tips@example.com'' ''http://'' \<and>
   \<not> startswith ''mailto:tips@example.com'' ''https://''"
  by code_simp

subsection \<open>Enrichment\<close>

lemma fetch_content_try_frame:
  assumes "fetch_content_try E a = Inr a'"
  shows "a' = a \<or> (\<exists>c. a' = a\<lparr>content := Some c\<rparr>)"
proof -
  from assms have "a' = a \<or> a' = a\<lparr>content := content a'\<rparr> \<and> content a' \<noteq> None"
    unfolding fetch_content_try_def
    by (auto split: if_splits option.splits dest!: try_bind_Inr)
  then show ?thesis by (cases "content a'") auto
qed

lemma fetch_article_content_no_page:
  assumes "(\<exists>e. make_request E (url a) = Inl e) \<or> make_request E (url a) = Inr None
           \<or> make_request E (url a) = Inr (Some [])"
  shows "fetch_article_content E a = a"
  using assms
  by (auto simp: fetch_article_content_def fetch_content_try_def truthy_def)

lemma fetch_article_content_page:
  assumes "url a \<noteq> []" "make_request E (url a) = Inr (Some html)" "html \<noteq> []"
  shows "fetch_article_content E a =
           (case first_match E (content_soup E html) body_selectors of
              Inl e \<Rightarrow> a
            | Inr (Some b) \<Rightarrow> a\<lparr>content := Some (body_text b)\<rparr>
            | Inr None \<Rightarrow>
                if find_all ''p'' (content_soup E html) \<noteq> []
                then a\<lparr>content := Some (paragraph_text (find_all ''p'' (content_soup E html)))\<rparr>
                else a)"
  using assms
  by (auto simp: fetch_article_content_def fetch_content_try_def truthy_def
      split: sum.splits option.splits)

text \<open>
  Claim C7, as amended. Enriching a stub never raises. A stub with an empty URL, and a
  stub whose page request fails or returns an empty body, is returned unchanged. In every
  case the result is the stub itself or the stub with its content set. For a fetched page
  the content is the cleaned text of the first body container that matches, otherwise the
  joined text of the paragraphs when there is any paragraph element, otherwise the stub
  is unchanged, and so is it when a selector raises. The content is set from a matching
  container or from paragraphs also when their text is blank, and is then the empty
  string.
\<close>

theorem C7_enrich_never_fails:
  "(url a = [] \<longrightarrow> fetch_article_content E a = a) \<and>
   ((\<exists>e. make_request E (url a) = Inl e) \<or> make_request E (url a) = Inr None
      \<or> make_request E (url a) = Inr (Some []) \<longrightarrow> fetch_article_content E a = a) \<and>
   (fetch_article_content E a = a \<or> (\<exists>c. fetch_article_content E a = a\<lparr>content := Some c\<rparr>)) \<and>
   (\<forall>html. url a \<noteq> [] \<and> make_request E (url a) = Inr (Some html) \<and> html \<noteq> [] \<longrightarrow>
      fetch_article_content E a =
        (case first_match E (content_soup E html) body_selectors of
           Inl e \<Rightarrow> a
         | Inr (Some b) \<Rightarrow> a\<lparr>content := Some (body_text b)\<rparr>
         | Inr None \<Rightarrow>
             if find_all ''p'' (content_soup E html) \<noteq> []
             then a\<lparr>content := Some (paragraph_text (find_all ''p'' (content_soup E html)))\<rparr>
             else a))"
proof (intro conjI allI impI)
  assume "url a = []"
  then show "fetch_article_content E a = a" by (simp add: fetch_article_content_def)
next
  assume "(\<exists>e. make_request E (url a) = Inl e) \<or> make_request E (url a) = Inr None
      \<or> make_request E (url a) = Inr (Some [])"
  then show "fetch_article_content E a = a" by (rule fetch_article_content_no_page)
next
  show "fetch_article_content E a = a \<or> (\<exists>c. fetch_article_content E a = a\<lparr>content := Some c\<rparr>)"
  proof (cases "fetch_content_try E a")
    case (Inl e)
    then show ?thesis by (simp add: fetch_article_content_def)
  next
    case (Inr a')
    with fetch_content_try_frame[OF this] show ?thesis
      by (auto simp: fetch_article_content_def)
  qed
next
  fix html
  assume "url a \<noteq> [] \<and> make_request E (url a) = Inr (Some html) \<and> html \<noteq> []"
  then show "fetch_article_content E a =
        (case first_match E (content_soup E html) body_selectors of
           Inl e \<Rightarrow> a
         | Inr (Some b) \<Rightarrow> a\<lparr>content := Some (body_text b)\<rparr>
         | Inr None \<Rightarrow>
             if find_all ''p'' (content_soup E html) \<noteq> []
             then a\<lparr>content := Some (paragraph_text (find_all ''p'' (content_soup E html)))\<rparr>
             else a)"
    using fetch_article_content_page[of a E html] by blast
qed

theorem C7_witness:
  "fetch_article_content demo_env (old_article\<lparr>url := []\<rparr>) = old_article\<lparr>url := []\<rparr> \<and>
   make_request demo_env (url old_article) = Inr None \<and>
   fetch_article_content demo_env old_article = old_article \<and>
   url (listing_stubs ! 3) \<noteq> [] \<and>
   make_request demo_env (url (listing_stubs ! 3)) = Inr (Some ''<bare>'') \<and>
   first_match demo_env (content_soup demo_env ''<bare>'') body_selectors = Inr None \<and>
   find_all ''p'' (content_soup demo_env ''<bare>'') = [] \<and>
   fetch_article_content demo_env (listing_stubs ! 3) = listing_stubs ! 3 \<and>
   content (listing_stubs ! 3) = None \<and>
   content (fetch_article_content demo_env (listing_stubs ! 0)) = Some (''First line.'' @ [newline] @ ''Second line.'')"
proof -
  have u0: "url (old_article\<lparr>url := []\<rparr>) = []" by simp
  from C7_enrich_never_fails[of "old_article\<lparr>url := []\<rparr>" demo_env] u0
  have 1: "fetch_article_content demo_env (old_article\<lparr>url := []\<rparr>) = old_article\<lparr>url := []\<rparr>"
    by blast
  have m: "make_request demo_env (url old_article) = Inr None" by code_simp
  from C7_enrich_never_fails[of old_article demo_env] m
  have 2: "fetch_article_content demo_env old_article = old_article" by blast
  have u3: "url (listing_stubs ! 3) \<noteq> []" by code_simp
  have m3: "make_request demo_env (url (listing_stubs ! 3)) = Inr (Some ''<bare>'')" by code_simp
  have f3: "first_match demo_env (content_soup demo_env ''<bare>'') body_selectors = Inr None"
    by code_simp
  have p3: "find_all ''p'' (content_soup demo_env ''<bare>'') = []" by code_simp
  have "url (listing_stubs ! 3) \<noteq> [] \<and> make_request demo_env (url (listing_stubs ! 3)) = Inr (Some ''<bare>'')
      \<and> ''<bare>'' \<noteq> []" using u3 m3 by simp
  with C7_enrich_never_fails[of "listing_stubs ! 3" demo_env]
  have "fetch_article_content demo_env (listing_stubs ! 3) =
        (case first_match demo_env (content_soup demo_env ''<bare>'') body_selectors of
           Inl e \<Rightarrow> listing_stubs ! 3
         | Inr (Some b) \<Rightarrow> (listing_stubs ! 3)\<lparr>content := Some (body_text b)\<rparr>
         | Inr None \<Rightarrow>
             if find_all ''p'' (content_soup demo_env ''<bare>'') \<noteq> []
             then (listing_stubs ! 3)\<lparr>content := Some (paragraph_text (find_all ''p'' (content_soup demo_env ''<bare>'')))\<rparr>
             else listing_stubs ! 3)"
    by blast
  then have 3: "fetch_article_content demo_env (listing_stubs ! 3) = listing_stubs ! 3"
    by (simp only: f3 p3 sum.case option.case if_False not_True_eq_False simp_thms)
  have c3: "content (listing_stubs ! 3) = None" by code_simp
  have 4: "content (fetch_article_content demo_env (listing_stubs ! 0))
      = Some (''First line.'' @ [newline] @ ''Second line.'')" by code_simp
  from 1 m 2 u3 m3 f3 p3 3 c3 4 show ?thesis by (intro conjI)
qed

text \<open>
  The claim as stated fails on a page whose body container holds only white space: the
  container matches, neither path yields text, and the content becomes the empty string
  instead of staying null.
\<close>

theorem C7_counterexample:
  "content (listing_stubs ! 1) = None \<and>
   make_request demo_env (url (listing_stubs ! 1)) = Inr (Some ''<blank body>'') \<and>
   first_match demo_env (content_soup demo_env ''<blank body>'') body_selectors
     = Inr (Some (Element ''article'' [] [Text ''   ''])) \<and>
   body_text (Element ''article'' [] [Text ''   '']) = [] \<and>
   fetch_article_content demo_env (listing_stubs ! 1) = (listing_stubs ! 1)\<lparr>content := Some []\<rparr>"
  by code_simp

subsection \<open>Orchestrator\<close>

lemma newest_first_sort: "newest_first (sort_newest_first arts)"
proof -
  have "sorted (map publishedAt (sort_key publishedAt (rev arts)))"
    by (rule sorted_sort_key)
  then have "sorted_wrt (\<lambda>a b. publishedAt a \<le> publishedAt b) (sort_key publishedAt (rev arts))"
    by (simp add: sorted_map)
  then show ?thesis
    by (simp add: newest_first_def sort_newest_first_def sorted_wrt_rev)
qed

lemma mset_sort_newest_first: "mset (sort_newest_first arts) = mset arts"
  by (simp add: sort_newest_first_def)

lemma sort_newest_first_stable:
  "filter (\<lambda>a. publishedAt a = k) (sort_newest_first arts) = filter (\<lambda>a. publishedAt a = k) arts"
proof -
  have "filter (\<lambda>a. publishedAt a = k) (sort_newest_first arts)
      = rev (filter (\<lambda>a. publishedAt a = k) (sort_key publishedAt (rev arts)))"
    by (simp add: sort_newest_first_def rev_filter)
  also have "\<dots> = rev (filter (\<lambda>a. publishedAt a = k) (rev arts))"
    by (simp only: sort_key_stable)
  also have "\<dots> = filter (\<lambda>a. publishedAt a = k) arts"
    by (simp add: rev_filter)
  finally show ?thesis .
qed

lemma sort_newest_first_Nil: "sort_newest_first arts = [] \<longleftrightarrow> arts = []"
  using mset_sort_newest_first[of arts] by (metis mset_zero_iff)

lemma collect_append: "collect E jobs acc = acc @ collect E jobs []"
proof (induction jobs arbitrary: acc)
  case Nil
  then show ?case by simp
next
  case (Cons j jobs)
  obtain sid cfg where j: "j = (sid, cfg)" by (cases j)
  let ?add = "case scrape_source E sid cfg of Inr arts \<Rightarrow> arts | Inl e \<Rightarrow> []"
  have "collect E (j # jobs) acc = (acc @ ?add) @ collect E jobs []"
    using Cons.IH[of "acc @ ?add"] by (simp add: j split: sum.splits)
  moreover have "collect E (j # jobs) [] = ?add @ collect E jobs []"
    using Cons.IH[of "?add"] by (simp add: j split: sum.splits)
  ultimately show ?case by simp
qed

lemma collect_concat: "collect E jobs [] = concat (map (job_articles E) jobs)"
proof (induction jobs)
  case Nil
  then show ?case by simp
next
  case (Cons j jobs)
  obtain sid cfg where j: "j = (sid, cfg)" by (cases j)
  have "collect E (j # jobs) [] = job_articles E j @ collect E jobs []"
    using collect_append[of E jobs "job_articles E j"]
    by (simp add: j job_articles_def split: sum.splits)
  with Cons show ?case by simp
qed

lemma mset_concat_map_perm:
  assumes "mset xs = mset ys"
  shows "mset (concat (map f xs)) = mset (concat (map f ys))"
proof -
  have "mset (concat (map f xs)) = sum_mset (image_mset (\<lambda>x. mset (f x)) (mset xs))"
    by (simp add: mset_concat sum_mset_sum_list[symmetric] comp_def)
  also have "\<dots> = sum_mset (image_mset (\<lambda>x. mset (f x)) (mset ys))"
    by (simp only: assms)
  also have "\<dots> = mset (concat (map f ys))"
    by (simp add: mset_concat sum_mset_sum_list[symmetric] comp_def)
  finally show ?thesis .
qed

lemma submit_all_articles:
  assumes "submit_all sources = Inr jobs"
  shows "map (job_articles E) jobs = map (source_articles E) sources"
  using assms
proof (induction sources arbitrary: jobs)
  case Nil
  then show ?case by simp
next
  case (Cons sid sources)
  then obtain cfg rest where c: "map_of SOURCES sid = Some cfg"
    and r: "submit_all sources = Inr rest" and j: "jobs = (sid, cfg) # rest"
    by (auto split: option.splits dest!: try_bind_Inr)
  from Cons.IH[OF r] c j show ?case
    by (simp add: job_articles_def source_articles_def)
qed

lemma submit_all_known:
  assumes "set sources \<subseteq> set (map fst SOURCES)"
  shows "\<exists>jobs. submit_all sources = Inr jobs"
  using assms
proof (induction sources)
  case Nil
  then show ?case by simp
next
  case (Cons sid sources)
  then obtain rest where r: "submit_all sources = Inr rest" by auto
  from Cons.prems have "map_of SOURCES sid \<noteq> None"
    by (simp add: map_of_eq_None_iff)
  then obtain cfg where "map_of SOURCES sid = Some cfg" by blast
  with r show ?case by simp
qed

lemma resolve_sources_known: "set (resolve_sources sources) \<subseteq> set (map fst SOURCES)"
  by (cases sources) (auto simp: resolve_sources_def)

lemma mset_gathered:
  assumes perm: "\<forall>js. mset (as_completed js) = mset js"
    and jobs: "submit_all sources = Inr jobs"
  shows "mset (gathered E as_completed jobs fetch_content)
           = mset (enriched E fetch_content (concat (map (source_articles E) sources)))"
proof -
  have "mset (collect E (as_completed jobs) []) = mset (concat (map (job_articles E) jobs))"
    using perm by (simp only: collect_concat mset_concat_map_perm[of "as_completed jobs" jobs])
  also have "\<dots> = mset (concat (map (source_articles E) sources))"
    by (simp only: submit_all_articles[OF jobs])
  finally have c: "mset (collect E (as_completed jobs) []) = mset (concat (map (source_articles E) sources))" .
  show ?thesis
  proof (cases "fetch_content")
    case False
    with c show ?thesis by (simp add: gathered_def enriched_def)
  next
    case True
    have "mset (gathered E as_completed jobs True)
        = image_mset (fetch_article_content E) (mset (collect E (as_completed jobs) []))"
      by (auto simp: gathered_def Let_def)
    with c True show ?thesis by (simp add: enriched_def)
  qed
qed

lemma fetch_news_unfold:
  assumes "resolve_sources sources \<noteq> []"
    and j: "submit_all (resolve_sources sources) = Inr jobs"
  shows "fetch_news E as_completed disk file sources fetch_content save =
             (if save \<and> gathered E as_completed jobs fetch_content \<noteq> []
              then (case disk (sort_newest_first (gathered E as_completed jobs fetch_content)) of
                      Some e \<Rightarrow> Inl e
                    | None \<Rightarrow> Inr (sort_newest_first (gathered E as_completed jobs fetch_content),
                                  Some (sort_newest_first (gathered E as_completed jobs fetch_content))))
              else Inr (sort_newest_first (gathered E as_completed jobs fetch_content), file))"
proof -
  from assms(1) have "\<not> min 3 (length (resolve_sources sources)) < 1"
    by (cases "resolve_sources sources") auto
  with j show ?thesis
    by (simp add: fetch_news_def Let_def save_articles_def sort_newest_first_Nil min_def
        split: option.splits)
qed

lemma fetch_news_empty_selection:
  assumes "resolve_sources sources = []"
  shows "fetch_news E as_completed disk file sources fetch_content save = Inl ValueError"
  using assms by (simp add: fetch_news_def)

lemma source_articles_failed:
  "map_of SOURCES sid = Some cfg \<Longrightarrow> scrape_source E sid cfg = Inl e \<Longrightarrow> source_articles E sid = []"
  by (simp add: source_articles_def)

text \<open>
  Claim C4. Let the scheduler hand back the submitted jobs in any order, and let the
  selection name at least one registered source (with none, the pool is created with
  zero workers and refuses to start). Then the run without persistence returns a list,
  and that list holds exactly the articles of the selected sources, enriched when
  requested, where a source whose scrape raises counts for no article (see
  \<^const>\<open>source_articles\<close>); it is ordered newest first. With persistence the returned list
  is the same, and the only exception that can leave the run is the one raised by the
  sink while it writes a non-empty list: no scraping failure escapes.
\<close>

theorem C4_source_failures_isolated:
  assumes "\<forall>js. mset (as_completed js) = mset js" and "resolve_sources sources \<noteq> []"
  shows "\<exists>final.
     mset final = mset (enriched E fetch_content
                          (concat (map (source_articles E) (resolve_sources sources)))) \<and>
     newest_first final \<and>
     fetch_news E as_completed disk file sources fetch_content False = Inr (final, file) \<and>
     (\<forall>e. fetch_news E as_completed disk file sources fetch_content True = Inl e
          \<longrightarrow> final \<noteq> [] \<and> disk final = Some e) \<and>
     (\<forall>r. fetch_news E as_completed disk file sources fetch_content True = Inr r
          \<longrightarrow> fst r = final)"
proof -
  from submit_all_known[OF resolve_sources_known] obtain jobs
    where j: "submit_all (resolve_sources sources) = Inr jobs" by blast
  note f = fetch_news_unfold[OF assms(2) j]
  let ?final = "sort_newest_first (gathered E as_completed jobs fetch_content)"
  have 1: "mset ?final = mset (enriched E fetch_content
                          (concat (map (source_articles E) (resolve_sources sources))))"
    using mset_gathered[OF assms(1) j] by (simp add: mset_sort_newest_first)
  have 2: "newest_first ?final" by (rule newest_first_sort)
  have 3: "fetch_news E as_completed disk file sources fetch_content False = Inr (?final, file)"
    by (simp add: f)
  have 4: "\<forall>e. fetch_news E as_completed disk file sources fetch_content True = Inl e
          \<longrightarrow> ?final \<noteq> [] \<and> disk ?final = Some e"
    by (auto simp: f sort_newest_first_Nil split: if_splits option.splits)
  have 5: "\<forall>r. fetch_news E as_completed disk file sources fetch_content True = Inr r
          \<longrightarrow> fst r = ?final"
    by (auto simp: f split: if_splits option.splits)
  from 1 2 3 4 5 show ?thesis by blast
qed

lemma demo_resolve:
  "resolve_sources (Some demo_selection) = [''seeking_alpha'', ''finviz'', ''zacks'']"
  by code_simp

lemma demo_submit: "submit_all [''seeking_alpha'', ''finviz'', ''zacks''] = Inr demo_jobs"
  by code_simp

lemma demo_scrapes:
  "map (\<lambda>j. scrape_source demo_env (fst j) (snd j)) demo_jobs =
     [Inr [rates_stub, oil_stub], Inl (Exception ''challenge not solved''), Inr [rally_stub]]"
  by code_simp

lemma demo_job_articles:
  "map (job_articles demo_env) demo_jobs = [[rates_stub, oil_stub], [], [rally_stub]]"
proof -
  have "map (job_articles demo_env) demo_jobs =
        map (\<lambda>r. case r of Inr arts \<Rightarrow> arts | Inl e \<Rightarrow> [])
          (map (\<lambda>j. scrape_source demo_env (fst j) (snd j)) demo_jobs)"
    by (simp add: job_articles_def comp_def)
  also have "\<dots> = [[rates_stub, oil_stub], [], [rally_stub]]"
    by (simp only: demo_scrapes) simp
  finally show ?thesis .
qed

lemma demo_gathered: "gathered demo_env rev demo_jobs False = [rally_stub, rates_stub, oil_stub]"
proof -
  have "collect demo_env (rev demo_jobs) [] = concat (rev (map (job_articles demo_env) demo_jobs))"
    by (simp add: collect_concat rev_map)
  then show ?thesis by (simp add: gathered_def demo_job_articles)
qed

lemma demo_sorted: "sort_newest_first [rally_stub, rates_stub, oil_stub] = demo_final"
  by code_simp

lemma demo_run:
  "fetch_news demo_env rev disk file (Some demo_selection) False save =
     (if save then (case disk demo_final of Some e \<Rightarrow> Inl e | None \<Rightarrow> Inr (demo_final, Some demo_final))
      else Inr (demo_final, file))"
proof -
  have ne: "resolve_sources (Some demo_selection) \<noteq> []" by (simp add: demo_resolve)
  have j: "submit_all (resolve_sources (Some demo_selection)) = Inr demo_jobs"
    by (simp only: demo_resolve demo_submit)
  show ?thesis
    by (simp add: fetch_news_unfold[OF ne j] demo_gathered demo_sorted demo_final_def
        split: option.splits)
qed


theorem C4_witness:
  "(\<forall>js :: (string \<times> source_config) list. mset (rev js) = mset js) \<and>
   resolve_sources (Some demo_selection) = [''seeking_alpha'', ''finviz'', ''zacks''] \<and>
   scrape_source demo_env ''finviz'' (snd (SOURCES ! 3)) = Inl (Exception ''challenge not solved'') \<and>
   fetch_news demo_env rev (\<lambda>arts. None) None (Some demo_selection) False False
     = Inr ([oil_stub, rally_stub, rates_stub], None) \<and>
   mset [oil_stub, rally_stub, rates_stub]
     = mset (source_articles demo_env ''seeking_alpha'' @ source_articles demo_env ''finviz''
             @ source_articles demo_env ''zacks'') \<and>
   newest_first [oil_stub, rally_stub, rates_stub]"
proof -
  have p: "\<forall>js :: (string \<times> source_config) list. mset (rev js) = mset js" by simp
  have r: "resolve_sources (Some demo_selection) = [''seeking_alpha'', ''finviz'', ''zacks'']"
    by (rule demo_resolve)
  have ne: "resolve_sources (Some demo_selection) \<noteq> []" by (simp add: r)
  have s: "scrape_source demo_env ''finviz'' (snd (SOURCES ! 3))
             = Inl (Exception ''challenge not solved'')"
    by code_simp
  have run: "fetch_news demo_env rev (\<lambda>arts. None) None (Some demo_selection) False False
     = Inr ([oil_stub, rally_stub, rates_stub], None)"
    by (simp add: demo_run demo_final_def)
  from C4_source_failures_isolated[OF p ne, of demo_env False "\<lambda>arts. None" None]
  obtain final where
    m: "mset final = mset (enriched demo_env False
          (concat (map (source_articles demo_env) (resolve_sources (Some demo_selection)))))"
    and n: "newest_first final"
    and f: "fetch_news demo_env rev (\<lambda>arts. None) None (Some demo_selection) False False
              = Inr (final, None)"
    by blast
  from f run have e: "final = [oil_stub, rally_stub, rates_stub]" by simp
  from m have m': "mset [oil_stub, rally_stub, rates_stub]
     = mset (source_articles demo_env ''seeking_alpha'' @ source_articles demo_env ''finviz''
             @ source_articles demo_env ''zacks'')"
    by (simp add: e r enriched_def)
  from n have n': "newest_first [oil_stub, rally_stub, rates_stub]" by (simp only: e)
  from p r s run m' n' show ?thesis by (intro conjI)
qed

text \<open>
  Claim C5. The list returned by the orchestrator is the gathered list sorted in
  descending order of the \<^verbatim>\<open>publishedAt\<close> strings: it is ordered newest first, has the
  same articles, and articles with the same \<^verbatim>\<open>publishedAt\<close> keep the order in which they
  were gathered. Articles dated January, March, February come out as March, February,
  January.
\<close>

theorem C5_sorted_newest_first_stable:
  assumes "fetch_news E as_completed disk file sources fetch_content save = Inr (arts, file')"
  shows "newest_first arts \<and>
         (\<exists>jobs. submit_all (resolve_sources sources) = Inr jobs \<and>
            mset arts = mset (gathered E as_completed jobs fetch_content) \<and>
            (\<forall>k. filter (\<lambda>a. publishedAt a = k) arts
                 = filter (\<lambda>a. publishedAt a = k) (gathered E as_completed jobs fetch_content)))"
proof -
  have ne: "resolve_sources sources \<noteq> []"
    using assms fetch_news_empty_selection[of sources E as_completed disk "file" fetch_content save]
    by auto
  from submit_all_known[OF resolve_sources_known] obtain jobs
    where j: "submit_all (resolve_sources sources) = Inr jobs" by blast
  let ?g = "gathered E as_completed jobs fetch_content"
  from assms have a: "arts = sort_newest_first ?g"
    by (auto simp: fetch_news_unfold[OF ne j] split: if_splits option.splits)
  have 1: "newest_first arts" by (simp only: a newest_first_sort)
  have 2: "mset arts = mset ?g" by (simp only: a mset_sort_newest_first)
  have 3: "\<forall>k. filter (\<lambda>a. publishedAt a = k) arts = filter (\<lambda>a. publishedAt a = k) ?g"
    by (simp only: a sort_newest_first_stable) simp
  from j 1 2 3 show ?thesis by blast
qed

theorem C5_witness:
  "fetch_news demo_env rev (\<lambda>arts. None) None (Some demo_selection) False False
     = Inr ([oil_stub, rally_stub, rates_stub], None) \<and>
   newest_first [oil_stub, rally_stub, rates_stub] \<and>
   map publishedAt [oil_stub, rally_stub, rates_stub]
     = [''2024-03-01T00:00:00'', ''2024-02-01T00:00:00'', ''2024-01-01T00:00:00''] \<and>
   map publishedAt (sort_newest_first [rates_stub, oil_stub, rally_stub])
     = [''2024-03-01T00:00:00'', ''2024-02-01T00:00:00'', ''2024-01-01T00:00:00'']"
proof -
  have run: "fetch_news demo_env rev (\<lambda>arts. None) None (Some demo_selection) False False
     = Inr ([oil_stub, rally_stub, rates_stub], None)"
    by (simp add: demo_run demo_final_def)
  from C5_sorted_newest_first_stable[OF run]
  have n: "newest_first [oil_stub, rally_stub, rates_stub]" by blast
  have d: "map publishedAt [oil_stub, rally_stub, rates_stub]
     = [''2024-03-01T00:00:00'', ''2024-02-01T00:00:00'', ''2024-01-01T00:00:00'']"
    by code_simp
  have s: "map publishedAt (sort_newest_first [rates_stub, oil_stub, rally_stub])
     = [''2024-03-01T00:00:00'', ''2024-02-01T00:00:00'', ''2024-01-01T00:00:00'']"
    by code_simp
  from run n d s show ?thesis by (intro conjI)
qed

text \<open>
  Claim C9, as amended. When a run with the persist flag returns, a non-empty final list
  has been written to the sink as a whole, while an empty final list is not written and
  the sink keeps what it held; the list returned is the one the run returns without the
  persist flag.
\<close>

theorem C9_persist_non_empty_result:
  assumes "fetch_news E as_completed disk file sources fetch_content True = Inr (arts, file')"
  shows "(arts \<noteq> [] \<longrightarrow> file' = Some arts \<and> disk arts = None) \<and>
         (arts = [] \<longrightarrow> file' = file) \<and>
         fetch_news E as_completed disk file sources fetch_content False = Inr (arts, file)"
proof -
  have ne: "resolve_sources sources \<noteq> []"
    using assms fetch_news_empty_selection[of sources E as_completed disk "file" fetch_content True]
    by auto
  from submit_all_known[OF resolve_sources_known] obtain jobs
    where j: "submit_all (resolve_sources sources) = Inr jobs" by blast
  note f = fetch_news_unfold[OF ne j]
  from assms show ?thesis
    by (auto simp: f sort_newest_first_Nil split: if_splits option.splits)
qed

theorem C9_witness:
  "fetch_news demo_env rev (\<lambda>arts. None) None (Some demo_selection) False True
     = Inr ([oil_stub, rally_stub, rates_stub], Some [oil_stub, rally_stub, rates_stub]) \<and>
   fetch_news demo_env rev (\<lambda>arts. None) None (Some demo_selection) False False
     = Inr ([oil_stub, rally_stub, rates_stub], None)"
proof -
  have run: "fetch_news demo_env rev (\<lambda>arts. None) None (Some demo_selection) False True
     = Inr ([oil_stub, rally_stub, rates_stub], Some [oil_stub, rally_stub, rates_stub])"
    by (simp add: demo_run demo_final_def)
  from C9_persist_non_empty_result[OF run]
  have "fetch_news demo_env rev (\<lambda>arts. None) None (Some demo_selection) False False
     = Inr ([oil_stub, rally_stub, rates_stub], None)" by blast
  with run show ?thesis by (intro conjI)
qed

text \<open>
  The claim as stated fails on a run that gathers nothing: the empty list is not written,
  and the sink still holds the articles of an earlier run.
\<close>

theorem C9_counterexample:
  "fetch_news demo_env id (\<lambda>arts. None) (Some [old_article]) (Some [''cnbc'']) False True
     = Inr ([], Some [old_article])"
  by code_simp

subsection \<open>Pagination\<close>

lemma pages_upto_Suc:
  "p \<le> k \<Longrightarrow> pages_upto api p k = page_articles api p @ pages_upto api (Suc p) k"
  by (simp add: pages_upto_def upt_conv_Cons del: upt_Suc)

lemma pages_upto_same: "pages_upto api p p = page_articles api p"
  by (simp add: pages_upto_def)

lemma fetch_pages_stops:
  "\<exists>n\<ge>p. (\<forall>k. p \<le> k \<and> k < n \<longrightarrow> page_ok api k \<and> \<not> stops_at api acc p k) \<and>
     (if page_ok api n
      then stops_at api acc p n \<and> fetch_pages api p acc = Inr (acc @ pages_upto api p n)
      else \<exists>e. fetch_pages api p acc = Inl e)"
proof (induction api p acc rule: fetch_pages.induct)
  case (1 api page acc)
  show ?case
  proof (cases "page_ok api page")
    case False
    then have "\<exists>e. fetch_pages api page acc = Inl e"
      by (subst fetch_pages.simps) (auto simp: page_ok_def split: sum.splits option.splits)
    with False show ?thesis
      by (intro exI[of _ page]) auto
  next
    case True
    then obtain data where d: "api page = Inr data" "status data = Some ''ok''"
      by (auto simp: page_ok_def split: sum.splits)
    have pa: "page_articles api page = dict_get (articles data) []"
      by (simp add: page_articles_def d)
    have pt: "page_total api page = dict_get (totalResults data) 0"
      by (simp add: page_total_def d)
    show ?thesis
    proof (cases "stops_at api acc page page")
      case stop: True
      have "fetch_pages api page acc = Inr (acc @ pages_upto api page page)"
        using stop d
        by (subst fetch_pages.simps) (auto simp: stops_at_def pages_upto_same pa pt)
      with True stop show ?thesis
        by (intro exI[of _ page]) auto
    next
      case nostop: False
      let ?acc' = "acc @ dict_get (articles data) []"
      from nostop have ns: "dict_get (articles data) [] \<noteq> []"
        "\<not> dict_get (totalResults data) 0 \<le> int (length ?acc')" "\<not> 100 \<le> length ?acc'"
        by (auto simp: stops_at_def pages_upto_same pa pt)
      have step: "fetch_pages api page acc = fetch_pages api (page + 1) ?acc'"
        using ns d by (subst fetch_pages.simps) auto
      from "1.IH"[OF d(1) d(2)] ns
      obtain n where n: "n \<ge> page + 1"
        "\<forall>k. page + 1 \<le> k \<and> k < n \<longrightarrow> page_ok api k \<and> \<not> stops_at api ?acc' (page + 1) k"
        "if page_ok api n
         then stops_at api ?acc' (page + 1) n \<and>
              fetch_pages api (page + 1) ?acc' = Inr (?acc' @ pages_upto api (page + 1) n)
         else \<exists>e. fetch_pages api (page + 1) ?acc' = Inl e"
        by auto
      have shift: "\<And>k. page + 1 \<le> k \<Longrightarrow>
          ?acc' @ pages_upto api (page + 1) k = acc @ pages_upto api page k"
        using pages_upto_Suc[of page _ api] pa by simp
      have shift2: "\<And>k. page + 1 \<le> k \<Longrightarrow>
          stops_at api ?acc' (page + 1) k = stops_at api acc page k"
        using shift by (simp add: stops_at_def)
      have "\<forall>k. page \<le> k \<and> k < n \<longrightarrow> page_ok api k \<and> \<not> stops_at api acc page k"
      proof (intro allI impI)
        fix k assume k: "page \<le> k \<and> k < n"
        show "page_ok api k \<and> \<not> stops_at api acc page k"
        proof (cases "k = page")
          case True
          then show ?thesis using \<open>page_ok api page\<close> nostop by simp
        next
          case False
          with k have "page + 1 \<le> k" by simp
          with n(2) k shift2 show ?thesis by auto
        qed
      qed
      moreover have "if page_ok api n
         then stops_at api acc page n \<and> fetch_pages api page acc = Inr (acc @ pages_upto api page n)
         else \<exists>e. fetch_pages api page acc = Inl e"
        using n(1,3) shift[of n] shift2[of n] step by (auto split: if_splits)
      moreover have "n \<ge> page" using n(1) by simp
      ultimately show ?thesis by blast
    qed
  qed
qed

lemma fetch_pages_full_first_page:
  assumes "api p = Inr data" "status data = Some ''ok''" "articles data = Some arts"
    "100 \<le> length (acc @ arts)"
  shows "fetch_pages api p acc = Inr (acc @ arts)"
  using assms by (subst fetch_pages.simps) (auto simp: dict_get_def)

text \<open>
  Claim C6. The pagination of the API path always ends, and it ends at the first page
  \<open>n\<close> (counted from 1) at which a stop condition holds: the page has no articles, or
  the running total has reached the reported \<^verbatim>\<open>totalResults\<close>, or the running total has
  reached the cap of 100. Every earlier page answered with status \<^verbatim>\<open>ok\<close> and met no stop
  condition, and the result is what pages 1 to \<open>n\<close> hold, in order. If instead a page
  fails (transport error or a status other than \<^verbatim>\<open>ok\<close>) before any stop condition held,
  the exception is the result. With 100 articles on the first page, collection ends with
  exactly these 100 articles whatever \<^verbatim>\<open>totalResults\<close> says (250 in the mocked API).
\<close>

theorem C6_pagination_stops_at_first_condition:
  "(\<exists>n\<ge>1. (\<forall>k. 1 \<le> k \<and> k < n \<longrightarrow> page_ok api k \<and> \<not> stops_at api [] 1 k) \<and>
       (if page_ok api n
        then stops_at api [] 1 n \<and> fetch_pages api 1 [] = Inr (pages_upto api 1 n)
        else \<exists>e. fetch_pages api 1 [] = Inl e)) \<and>
   (page_ok api 1 \<and> length (page_articles api 1) = 100 \<longrightarrow>
      fetch_pages api 1 [] = Inr (page_articles api 1))"
proof
  show "\<exists>n\<ge>1. (\<forall>k. 1 \<le> k \<and> k < n \<longrightarrow> page_ok api k \<and> \<not> stops_at api [] 1 k) \<and>
       (if page_ok api n
        then stops_at api [] 1 n \<and> fetch_pages api 1 [] = Inr (pages_upto api 1 n)
        else \<exists>e. fetch_pages api 1 [] = Inl e)"
    using fetch_pages_stops[of 1 api "[]"] by (simp only: append_Nil)
next
  show "page_ok api 1 \<and> length (page_articles api 1) = 100 \<longrightarrow>
      fetch_pages api 1 [] = Inr (page_articles api 1)"
  proof
    assume a: "page_ok api 1 \<and> length (page_articles api 1) = 100"
    then obtain data where d: "api 1 = Inr data" "status data = Some ''ok''"
      by (auto simp: page_ok_def split: sum.splits)
    with a have len: "length (dict_get (articles data) []) = 100"
      by (simp add: page_articles_def)
    then obtain arts where arts: "articles data = Some arts"
      by (cases "articles data") (auto simp: dict_get_def)
    with len have "100 \<le> length ([] @ arts)" by (simp add: dict_get_def)
    from fetch_pages_full_first_page[of api 1 data arts "[]", OF d arts this]
    have r: "fetch_pages api 1 [] = Inr ([] @ arts)" .
    have "page_articles api 1 = arts"
      using d arts by (simp add: page_articles_def dict_get_def)
    with r show "fetch_pages api 1 [] = Inr (page_articles api 1)"
      by simp
  qed
qed

theorem C6_witness:
  "page_ok api250 1 \<and> length (page_articles api250 1) = 100 \<and>
   page_total api250 1 = 250 \<and>
   fetch_pages api250 1 [] = Inr (replicate 100 1) \<and>
   fetch_financial_news api250 False (\<lambda>xs. None) None = Inr (replicate 100 1, None)"
proof -
  have ok: "page_ok api250 1 \<and> length (page_articles api250 1) = 100"
    by (simp add: page_ok_def page_articles_def api250_def dict_get_def)
  from C6_pagination_stops_at_first_condition[of api250] ok
  have "fetch_pages api250 1 [] = Inr (page_articles api250 1)" by blast
  then have r: "fetch_pages api250 1 [] = Inr (replicate 100 1)"
    by (simp add: page_articles_def api250_def dict_get_def)
  have "page_total api250 1 = 250"
    by (simp add: page_total_def api250_def dict_get_def)
  with ok r show ?thesis
    by (simp add: fetch_financial_news_def)
qed

end
